theory Spec2Isabelle
  imports Main "HOL-Library.Multiset"
begin

section \<open>Data model\<close>

text \<open>
  The handlers of \<open>handlers/schedule/schedule_handler.go\<close> work on three tables through a
  GORM handle. A row of \<open>tw_schedules\<close> is the struct \<open>models.TwSchedule\<close>, with the
  fields the handlers read and write. Pointer fields (\<open>*time.Time\<close>) are options, \<open>nil\<close>
  being \<open>None\<close>. An instant is a natural number (a count of seconds); Go's \<open>int\<close> is an
  unbounded integer here: the handlers compare positions and add or subtract 1, far from
  the 64-bit bounds.
\<close>

type_synonym time = nat

record schedule =
  ID :: nat
  WorkspaceId :: int
  BoardColumnId :: int
  Title :: string
  Description :: string
  StartTime :: "time option"
  EndTime :: "time option"
  Location :: string
  CreatedBy :: int
  CreatedAt :: "time option"
  UpdatedAt :: "time option"
  Status :: string
  AllDay :: bool
  Visibility :: string
  ExtraData :: string
  IsDeleted :: bool
  DeletedAt :: "time option"
  RecurrencePattern :: string
  Position :: int
  Priority :: string
  VideoTranscript :: string

record schedule_log =
  ScheduleId :: nat
  WorkspaceUserId :: int
  Action :: string
  FieldChanged :: string
  OldValue :: string
  NewValue :: string

record schedule_participant =
  pCreatedAt :: time
  pUpdatedAt :: time
  pScheduleId :: nat
  pWorkspaceUserId :: int
  pAssignAt :: "time option"
  pAssignBy :: int
  pStatus :: string
  pResponseTime :: "time option"
  pInvitationSentAt :: "time option"
  pInvitationStatus :: string

text \<open>
  The database behind \<open>h.DB\<close>: the three tables, and \<open>calls_left\<close>, which decides when
  the store fails. Every call on the handle (a query or a write) may return an error, and
  each handler returns at once when one does. \<open>calls_left = None\<close> is a store that never
  fails; \<open>calls_left = Some k\<close> is a store whose next \<open>k\<close> calls succeed and whose call
  after them fails, leaving the tables as they are.
\<close>

record store =
  tw_schedules :: "schedule list"
  tw_schedule_logs :: "schedule_log list"
  tw_schedule_participants :: "schedule_participant list"
  calls_left :: "nat option"

text \<open>
  What a handler answers when it does not succeed: the three HTTP statuses the handlers
  send, and \<open>Panic\<close> for a nil pointer dereference.
\<close>

datatype failure = BadRequest | NotFound | InternalServerError | Panic

section \<open>The store\<close>

definition db_call :: "store \<Rightarrow> store option" where
  "db_call db =
     (case calls_left db of
        None \<Rightarrow> Some db
      | Some 0 \<Rightarrow> None
      | Some (Suc k) \<Rightarrow> Some (db\<lparr>calls_left := Some k\<rparr>))"

text \<open>\<open>Where("id = ?", scheduleId).First(&schedule)\<close>: the first row with that id.\<close>

definition First_by_id :: "nat \<Rightarrow> schedule list \<Rightarrow> schedule option" where
  "First_by_id scheduleId rows = find (\<lambda>r. ID r = scheduleId) rows"

text \<open>\<open>Where(cond).Order("position ASC").Find(&rows)\<close>.\<close>

definition Find_ordered :: "(schedule \<Rightarrow> bool) \<Rightarrow> schedule list \<Rightarrow> schedule list" where
  "Find_ordered cond rows = sort_key Position (filter cond rows)"

text \<open>
  \<open>Omit(columns).Save(&row)\<close> writes every column of the struct but the omitted ones to
  the row with the struct's primary key; the omitted columns keep what the table holds.
  Every caller saves a row it has read from the table in the same request.
\<close>

definition omit_deleted_at :: "schedule \<Rightarrow> schedule \<Rightarrow> schedule" where
  "omit_deleted_at old new = new\<lparr>DeletedAt := DeletedAt old\<rparr>"

definition omit_times :: "schedule \<Rightarrow> schedule \<Rightarrow> schedule" where
  "omit_times old new = new\<lparr>StartTime := StartTime old, EndTime := EndTime old\<rparr>"

definition omit_deleted_at_times :: "schedule \<Rightarrow> schedule \<Rightarrow> schedule" where
  "omit_deleted_at_times old new =
     new\<lparr>DeletedAt := DeletedAt old, StartTime := StartTime old, EndTime := EndTime old\<rparr>"

definition Save :: "(schedule \<Rightarrow> schedule \<Rightarrow> schedule) \<Rightarrow> schedule \<Rightarrow> schedule list \<Rightarrow> schedule list" where
  "Save omit s rows = map (\<lambda>r. if ID r = ID s then omit r s else r) rows"

text \<open>
  The loop every position change shares:
  \<^verbatim>\<open>for i := range schedulesToUpdate {
      schedulesToUpdate[i].Position += d
      if err := h.DB.Omit("deleted_at,start_time,end_time").Save(&schedulesToUpdate[i]).Error; err != nil {
          return c.Status(fiber.StatusInternalServerError).SendString(err.Error())
      }
  }\<close>
  with \<open>d\<close> being \<open>1\<close> or \<open>-1\<close>. The boolean is False when a save failed; the store
  returned then holds the saves made before it.
\<close>

fun save_shifted :: "int \<Rightarrow> schedule list \<Rightarrow> store \<Rightarrow> bool \<times> store" where
  "save_shifted d [] db = (True, db)"
| "save_shifted d (r # rs) db =
     (case db_call db of
        None \<Rightarrow> (False, db)
      | Some db1 \<Rightarrow>
          save_shifted d rs
            (db1\<lparr>tw_schedules :=
               Save omit_deleted_at_times (r\<lparr>Position := Position r + d\<rparr>) (tw_schedules db1)\<rparr>))"

text \<open>
  A query followed by the shifting loop: \<open>Where(cond).Order("position ASC").Find\<close>, then
  the loop over what it found.
\<close>

definition find_and_shift :: "int \<Rightarrow> (schedule \<Rightarrow> bool) \<Rightarrow> store \<Rightarrow> bool \<times> store" where
  "find_and_shift d cond db =
     (case db_call db of
        None \<Rightarrow> (False, db)
      | Some db1 \<Rightarrow> save_shifted d (Find_ordered cond (tw_schedules db1)) db1)"

section \<open>Strings and times\<close>

text \<open>
  \<open>strconv.Itoa\<close> and \<open>strconv.FormatBool\<close>, which render the values the change log
  compares.
\<close>

fun digits :: "nat \<Rightarrow> string" where
  "digits n =
     (if n < 10 then [''0123456789'' ! n]
      else digits (n div 10) @ [''0123456789'' ! (n mod 10)])"

declare digits.simps [simp del]

definition Itoa :: "int \<Rightarrow> string" where
  "Itoa i = (if i < 0 then CHR ''-'' # digits (nat (- i)) else digits (nat i))"

definition FormatBool :: "bool \<Rightarrow> string" where
  "FormatBool b = (if b then ''true'' else ''false'')"

text \<open>\<open>strings.Replace(input, " ", "T", 1)\<close> and \<open>strings.TrimSuffix\<close>.\<close>

fun replace_first :: "char \<Rightarrow> char \<Rightarrow> string \<Rightarrow> string" where
  "replace_first a b [] = []"
| "replace_first a b (c # cs) = (if c = a then b # cs else c # replace_first a b cs)"

definition TrimSuffix :: "string \<Rightarrow> string \<Rightarrow> string" where
  "TrimSuffix s suffix =
     (if length suffix \<le> length s \<and> drop (length s - length suffix) s = suffix
      then take (length s - length suffix) s else s)"

definition convertToISOFormat :: "string \<Rightarrow> string" where
  "convertToISOFormat input =
     TrimSuffix (replace_first CHR '' '' CHR ''T'' input) ''.000'' @ ''Z''"

text \<open>
  \<open>convertDateFormat\<close> calls \<open>time.Parse\<close> with the layout \<open>2006-01-02T15:04:05Z07:00\<close>
  and returns nil when the string does not parse. \<open>time.Parse\<close> and \<open>Time.String\<close> belong to
  Go's library: the handlers take them as the parameters \<open>Parse\<close> (the instant, in UTC, of
  a string that parses) and \<open>String\<close>.
\<close>

definition convertDateFormat :: "(string \<Rightarrow> time option) \<Rightarrow> string option \<Rightarrow> time option" where
  "convertDateFormat Parse dateStr =
     (case dateStr of None \<Rightarrow> None | Some str \<Rightarrow> Parse str)"

section \<open>The change log\<close>

text \<open>
  The closure \<open>checkAndLog\<close> of \<open>UpdateSchedule\<close> and \<open>UpdateSchedulePosition\<close>: it
  appends one row to \<open>logs\<close> when the two strings differ.
\<close>

definition checkAndLog ::
  "nat \<Rightarrow> int \<Rightarrow> string \<Rightarrow> string \<Rightarrow> string \<Rightarrow> schedule_log list \<Rightarrow> schedule_log list" where
  "checkAndLog scheduleID workspaceUserId field oldValue newValue logs =
     (if oldValue \<noteq> newValue
      then logs @ [\<lparr>ScheduleId = scheduleID, WorkspaceUserId = workspaceUserId,
                     Action = ''update schedule'', FieldChanged = field,
                     OldValue = oldValue, NewValue = newValue\<rparr>]
      else logs)"

text \<open>
  The end both update handlers share: refresh \<open>updated_at\<close>, save the schedule without
  \<open>deleted_at\<close>, create the log rows when there are any, and build the response, which
  dereferences \<open>StartTime\<close>, \<open>EndTime\<close>, \<open>CreatedAt\<close> and \<open>UpdatedAt\<close>. The response
  is the schedule it is built from.
\<close>

definition save_and_respond ::
  "time \<Rightarrow> schedule \<Rightarrow> schedule_log list \<Rightarrow> store \<Rightarrow> (failure + schedule) \<times> store" where
  "save_and_respond now schedule0 logs db =
     (let schedule = schedule0\<lparr>UpdatedAt := Some now\<rparr> in
      case db_call db of
        None \<Rightarrow> (Inl InternalServerError, db)
      | Some db1 \<Rightarrow>
     (let db2 = db1\<lparr>tw_schedules := Save omit_deleted_at schedule (tw_schedules db1)\<rparr> in
      case (if length logs > 0
            then (case db_call db2 of
                    None \<Rightarrow> None
                  | Some db3 \<Rightarrow> Some (db3\<lparr>tw_schedule_logs := tw_schedule_logs db3 @ logs\<rparr>))
            else Some db2) of
        None \<Rightarrow> (Inl InternalServerError, db2)
      | Some db4 \<Rightarrow>
          if StartTime schedule = None \<or> EndTime schedule = None \<or> CreatedAt schedule = None
          then (Inl Panic, db4)
          else (Inr schedule, db4)))"

section \<open>CreateSchedule\<close>

record create_request =
  crWorkspaceID :: "int option"
  crBoardColumnID :: "int option"
  crTitle :: "string option"
  crDescription :: "string option"
  crWorkspaceUserID :: "int option"
  crStartTime :: "string option"
  crEndTime :: "string option"

text \<open>The key \<open>db.Create\<close> gives a new row: one more than the largest in the table.\<close>

definition next_id :: "schedule list \<Rightarrow> nat" where
  "next_id rows = Suc (fold max (map ID rows) 0)"

text \<open>
  \<open>body\<close> is None when \<open>c.BodyParser\<close> fails. The request's pointer fields are
  dereferenced without a nil check. \<open>now\<close> and \<open>now2\<close> are the two readings of
  \<open>time.Now()\<close>; an hour is 3600 seconds.
\<close>

definition CreateSchedule ::
  "(string \<Rightarrow> time option) \<Rightarrow> time \<Rightarrow> time \<Rightarrow> create_request option \<Rightarrow> store
     \<Rightarrow> (failure + schedule) \<times> store" where
  "CreateSchedule Parse now now2 body db =
     (case body of
        None \<Rightarrow> (Inl BadRequest, db)
      | Some scheduleDTO \<Rightarrow>
     (case crBoardColumnID scheduleDTO of
        None \<Rightarrow> (Inl Panic, db)
      | Some col \<Rightarrow>
     (case db_call db of
        None \<Rightarrow> (Inl InternalServerError, db)
      | Some db1 \<Rightarrow>
     (let existingSchedules =
            filter (\<lambda>r. BoardColumnId r = col \<and> \<not> IsDeleted r) (tw_schedules db1) in
     (case crWorkspaceID scheduleDTO of
        None \<Rightarrow> (Inl Panic, db1)
      | Some ws \<Rightarrow>
     (case crTitle scheduleDTO of
        None \<Rightarrow> (Inl Panic, db1)
      | Some title \<Rightarrow>
     (case crDescription scheduleDTO of
        None \<Rightarrow> (Inl Panic, db1)
      | Some description \<Rightarrow>
     (case crWorkspaceUserID scheduleDTO of
        None \<Rightarrow> (Inl Panic, db1)
      | Some uid \<Rightarrow>
     (let schedule1 =
            \<lparr>ID = 0, WorkspaceId = ws, BoardColumnId = col, Title = title,
             Description = description, StartTime = Some now, EndTime = Some (now + 3600),
             Location = [], CreatedBy = uid, CreatedAt = Some now, UpdatedAt = Some now,
             Status = ''not yet'', AllDay = False, Visibility = ''public'', ExtraData = [],
             IsDeleted = False, DeletedAt = None, RecurrencePattern = [],
             Position = int (length existingSchedules) + 1, Priority = [],
             VideoTranscript = []\<rparr>;
          schedule2 =
            (case crStartTime scheduleDTO of
               None \<Rightarrow> schedule1
             | Some str \<Rightarrow>
                 (case convertDateFormat Parse (Some (convertToISOFormat str)) of
                    None \<Rightarrow> schedule1
                  | Some parsedTime \<Rightarrow> schedule1\<lparr>StartTime := Some parsedTime\<rparr>));
          schedule3 =
            (case crEndTime scheduleDTO of
               None \<Rightarrow> schedule2
             | Some str \<Rightarrow>
                 (case convertDateFormat Parse (Some (convertToISOFormat str)) of
                    None \<Rightarrow> schedule2
                  | Some parsedTime \<Rightarrow> schedule2\<lparr>EndTime := Some parsedTime\<rparr>)) in
     (case db_call db1 of
        None \<Rightarrow> (Inl InternalServerError, db1)
      | Some db2 \<Rightarrow>
     (let schedule = schedule3\<lparr>ID := next_id (tw_schedules db2)\<rparr>;
          db3 = db2\<lparr>tw_schedules := tw_schedules db2 @ [schedule]\<rparr> in
     (case db_call db3 of
        None \<Rightarrow> (Inl InternalServerError, db3)
      | Some db4 \<Rightarrow>
     (let db5 = db4\<lparr>tw_schedule_logs := tw_schedule_logs db4 @
                  [\<lparr>ScheduleId = ID schedule, WorkspaceUserId = uid,
                    Action = ''create schedule'', FieldChanged = [], OldValue = [],
                    NewValue = []\<rparr>]\<rparr> in
     (case db_call db5 of
        None \<Rightarrow> (Inl InternalServerError, db5)
      | Some db6 \<Rightarrow>
          (Inr schedule,
           db6\<lparr>tw_schedule_participants := tw_schedule_participants db6 @
              [\<lparr>pCreatedAt = now2, pUpdatedAt = now2, pScheduleId = ID schedule,
                pWorkspaceUserId = uid, pAssignAt = Some now2, pAssignBy = uid,
                pStatus = ''creator'', pResponseTime = Some now2,
                pInvitationSentAt = Some now2,
                pInvitationStatus = ''joined''\<rparr>]\<rparr>)))))))))))))))"

section \<open>UpdateSchedule\<close>

record update_request =
  upTitle :: "string option"
  upDescription :: "string option"
  upStartTime :: "string option"
  upEndTime :: "string option"
  upLocation :: "string option"
  upStatus :: "string option"
  upAllDay :: "bool option"
  upVisibility :: "string option"
  upExtraData :: "string option"
  upRecurrencePattern :: "string option"
  upPriority :: "string option"
  upVideoTranscript :: "string option"

text \<open>
  The handler's twelve \<open>if scheduleDTO.X != nil { ... }\<close> blocks, in the order of the source.
  Each works on the schedule read from the table and on \<open>logs\<close>.
\<close>

definition patch_Title :: "int \<Rightarrow> update_request \<Rightarrow> schedule \<times> schedule_log list \<Rightarrow> schedule \<times> schedule_log list" where
  "patch_Title uid dto = (\<lambda>(schedule, logs).
     case upTitle dto of
       None \<Rightarrow> (schedule, logs)
     | Some v \<Rightarrow>
         (schedule\<lparr>Title := v\<rparr>,
          checkAndLog (ID schedule) uid ''title'' (Title schedule) v logs))"

definition patch_Description :: "int \<Rightarrow> update_request \<Rightarrow> schedule \<times> schedule_log list \<Rightarrow> schedule \<times> schedule_log list" where
  "patch_Description uid dto = (\<lambda>(schedule, logs).
     case upDescription dto of
       None \<Rightarrow> (schedule, logs)
     | Some v \<Rightarrow>
         (schedule\<lparr>Description := v\<rparr>,
          checkAndLog (ID schedule) uid ''description'' (Description schedule) v logs))"

definition patch_StartTime ::
  "(string \<Rightarrow> time option) \<Rightarrow> (time \<Rightarrow> string) \<Rightarrow> int \<Rightarrow> update_request
     \<Rightarrow> schedule \<times> schedule_log list \<Rightarrow> schedule \<times> schedule_log list" where
  "patch_StartTime Parse String uid dto = (\<lambda>(schedule, logs).
     case upStartTime dto of
       None \<Rightarrow> (schedule, logs)
     | Some v \<Rightarrow>
         (let oldStartTime = (case StartTime schedule of None \<Rightarrow> [] | Some t \<Rightarrow> String t);
              logs1 = checkAndLog (ID schedule) uid ''start_time'' oldStartTime v logs
          in case convertDateFormat Parse (Some v) of
               None \<Rightarrow> (schedule, logs1)
             | Some parsedTime \<Rightarrow> (schedule\<lparr>StartTime := Some parsedTime\<rparr>, logs1)))"

definition patch_EndTime ::
  "(string \<Rightarrow> time option) \<Rightarrow> (time \<Rightarrow> string) \<Rightarrow> int \<Rightarrow> update_request
     \<Rightarrow> schedule \<times> schedule_log list \<Rightarrow> schedule \<times> schedule_log list" where
  "patch_EndTime Parse String uid dto = (\<lambda>(schedule, logs).
     case upEndTime dto of
       None \<Rightarrow> (schedule, logs)
     | Some v \<Rightarrow>
         (let oldEndTime = (case EndTime schedule of None \<Rightarrow> [] | Some t \<Rightarrow> String t);
              logs1 = checkAndLog (ID schedule) uid ''end_time'' oldEndTime v logs
          in case convertDateFormat Parse (Some v) of
               None \<Rightarrow> (schedule, logs1)
             | Some parsedTime \<Rightarrow> (schedule\<lparr>EndTime := Some parsedTime\<rparr>, logs1)))"

definition patch_Location :: "int \<Rightarrow> update_request \<Rightarrow> schedule \<times> schedule_log list \<Rightarrow> schedule \<times> schedule_log list" where
  "patch_Location uid dto = (\<lambda>(schedule, logs).
     case upLocation dto of
       None \<Rightarrow> (schedule, logs)
     | Some v \<Rightarrow>
         (schedule\<lparr>Location := v\<rparr>,
          checkAndLog (ID schedule) uid ''location'' (Location schedule) v logs))"

definition patch_Status :: "int \<Rightarrow> update_request \<Rightarrow> schedule \<times> schedule_log list \<Rightarrow> schedule \<times> schedule_log list" where
  "patch_Status uid dto = (\<lambda>(schedule, logs).
     case upStatus dto of
       None \<Rightarrow> (schedule, logs)
     | Some v \<Rightarrow>
         (schedule\<lparr>Status := v\<rparr>,
          checkAndLog (ID schedule) uid ''status'' (Status schedule) v logs))"

definition patch_AllDay :: "int \<Rightarrow> update_request \<Rightarrow> schedule \<times> schedule_log list \<Rightarrow> schedule \<times> schedule_log list" where
  "patch_AllDay uid dto = (\<lambda>(schedule, logs).
     case upAllDay dto of
       None \<Rightarrow> (schedule, logs)
     | Some v \<Rightarrow>
         (schedule\<lparr>AllDay := v\<rparr>,
          checkAndLog (ID schedule) uid ''all_day'' (FormatBool (AllDay schedule))
            (FormatBool v) logs))"

definition patch_Visibility :: "int \<Rightarrow> update_request \<Rightarrow> schedule \<times> schedule_log list \<Rightarrow> schedule \<times> schedule_log list" where
  "patch_Visibility uid dto = (\<lambda>(schedule, logs).
     case upVisibility dto of
       None \<Rightarrow> (schedule, logs)
     | Some v \<Rightarrow>
         (schedule\<lparr>Visibility := v\<rparr>,
          checkAndLog (ID schedule) uid ''visibility'' (Visibility schedule) v logs))"

definition patch_ExtraData :: "int \<Rightarrow> update_request \<Rightarrow> schedule \<times> schedule_log list \<Rightarrow> schedule \<times> schedule_log list" where
  "patch_ExtraData uid dto = (\<lambda>(schedule, logs).
     case upExtraData dto of
       None \<Rightarrow> (schedule, logs)
     | Some v \<Rightarrow>
         (schedule\<lparr>ExtraData := v\<rparr>,
          checkAndLog (ID schedule) uid ''extra_data'' (ExtraData schedule) v logs))"

definition patch_RecurrencePattern :: "int \<Rightarrow> update_request \<Rightarrow> schedule \<times> schedule_log list \<Rightarrow> schedule \<times> schedule_log list" where
  "patch_RecurrencePattern uid dto = (\<lambda>(schedule, logs).
     case upRecurrencePattern dto of
       None \<Rightarrow> (schedule, logs)
     | Some v \<Rightarrow>
         (schedule\<lparr>RecurrencePattern := v\<rparr>,
          checkAndLog (ID schedule) uid ''recurrence_pattern'' (RecurrencePattern schedule) v
            logs))"

definition patch_Priority :: "int \<Rightarrow> update_request \<Rightarrow> schedule \<times> schedule_log list \<Rightarrow> schedule \<times> schedule_log list" where
  "patch_Priority uid dto = (\<lambda>(schedule, logs).
     case upPriority dto of
       None \<Rightarrow> (schedule, logs)
     | Some v \<Rightarrow>
         (schedule\<lparr>Priority := v\<rparr>,
          checkAndLog (ID schedule) uid ''priority'' (Priority schedule) v logs))"

definition patch_VideoTranscript :: "int \<Rightarrow> update_request \<Rightarrow> schedule \<times> schedule_log list \<Rightarrow> schedule \<times> schedule_log list" where
  "patch_VideoTranscript uid dto = (\<lambda>(schedule, logs).
     case upVideoTranscript dto of
       None \<Rightarrow> (schedule, logs)
     | Some v \<Rightarrow>
         (schedule\<lparr>VideoTranscript := v\<rparr>,
          checkAndLog (ID schedule) uid ''video_transcript'' (VideoTranscript schedule) v
            logs))"

text \<open>
  The twelve blocks in sequence, then \<open>schedule.CreatedBy = workspaceUserId\<close>.
\<close>

definition apply_patch ::
  "(string \<Rightarrow> time option) \<Rightarrow> (time \<Rightarrow> string) \<Rightarrow> int \<Rightarrow> update_request \<Rightarrow> schedule
     \<Rightarrow> schedule \<times> schedule_log list" where
  "apply_patch Parse String uid dto found =
     (let (schedule, logs) =
        (patch_VideoTranscript uid dto
        (patch_Priority uid dto
        (patch_RecurrencePattern uid dto
        (patch_ExtraData uid dto
        (patch_Visibility uid dto
        (patch_AllDay uid dto
        (patch_Status uid dto
        (patch_Location uid dto
        (patch_EndTime Parse String uid dto
        (patch_StartTime Parse String uid dto
        (patch_Description uid dto
        (patch_Title uid dto (found, [])))))))))))))
      in (schedule\<lparr>CreatedBy := uid\<rparr>, logs))"

text \<open>
  \<open>body\<close> is None when \<open>c.BodyParser\<close> fails, \<open>workspaceUserId\<close> is None when
  \<open>strconv.Atoi\<close> fails on the path parameter.
\<close>

definition UpdateSchedule ::
  "(string \<Rightarrow> time option) \<Rightarrow> (time \<Rightarrow> string) \<Rightarrow> time \<Rightarrow> update_request option \<Rightarrow> nat
     \<Rightarrow> int option \<Rightarrow> store \<Rightarrow> (failure + schedule) \<times> store" where
  "UpdateSchedule Parse String now body scheduleId workspaceUserId db =
     (case body of
        None \<Rightarrow> (Inl BadRequest, db)
      | Some scheduleDTO \<Rightarrow>
     (case workspaceUserId of
        None \<Rightarrow> (Inl BadRequest, db)
      | Some uid \<Rightarrow>
     (case db_call db of
        None \<Rightarrow> (Inl InternalServerError, db)
      | Some db1 \<Rightarrow>
     (case First_by_id scheduleId (tw_schedules db1) of
        None \<Rightarrow> (Inl NotFound, db1)
      | Some found \<Rightarrow>
          (case apply_patch Parse String uid scheduleDTO found of
             (schedule, logs) \<Rightarrow> save_and_respond now schedule logs db1)))))"

section \<open>UpdateSchedulePosition\<close>

record update_position_request =
  mvBoardColumnID :: "int option"
  mvPosition :: "int option"

text \<open>\<open>Select("COALESCE(MAX(position), 0)")\<close> over the positions a query selects.\<close>

fun coalesce_max :: "int list \<Rightarrow> int" where
  "coalesce_max [] = 0"
| "coalesce_max (p # ps) = fold max ps p"

text \<open>
  The block \<open>if scheduleDTO.BoardColumnID != nil { ... }\<close>: it shifts the siblings and
  returns the schedule with its new position and column, and the log rows. The request's
  position is a pointer: dereferencing it panics when it is nil, and as a query argument a
  nil pointer is SQL's NULL, which no position compares to.
\<close>

definition move_block ::
  "int \<Rightarrow> update_position_request \<Rightarrow> schedule \<Rightarrow> store
     \<Rightarrow> (failure + schedule \<times> schedule_log list) \<times> store" where
  "move_block uid dto schedule db =
     (case mvBoardColumnID dto of
        None \<Rightarrow> (Inr (schedule, []), db)
      | Some col \<Rightarrow>
          if col = BoardColumnId schedule then
            (case mvPosition dto of
               None \<Rightarrow> (Inl Panic, db)
             | Some pos \<Rightarrow>
            (case (if pos < Position schedule then
                     find_and_shift 1
                       (\<lambda>r. BoardColumnId r = BoardColumnId schedule
                             \<and> Position r < Position schedule \<and> Position r \<ge> pos
                             \<and> \<not> IsDeleted r) db
                   else if pos > Position schedule then
                     find_and_shift (- 1)
                       (\<lambda>r. BoardColumnId r = BoardColumnId schedule
                             \<and> Position r > Position schedule \<and> Position r \<le> pos
                             \<and> \<not> IsDeleted r) db
                   else (True, db)) of
               (False, db1) \<Rightarrow> (Inl InternalServerError, db1)
             | (True, db1) \<Rightarrow>
                 (let logs1 = checkAndLog (ID schedule) uid ''position''
                                (Itoa (Position schedule)) (Itoa pos) [];
                      logs2 = checkAndLog (ID schedule) uid ''board_column_id''
                                (Itoa (BoardColumnId schedule)) (Itoa col) logs1
                  in (Inr (schedule\<lparr>Position := pos, BoardColumnId := col\<rparr>, logs2), db1))))
          else
            (case find_and_shift (- 1)
                    (\<lambda>r. BoardColumnId r = BoardColumnId schedule
                          \<and> Position r > Position schedule \<and> \<not> IsDeleted r) db of
               (False, db1) \<Rightarrow> (Inl InternalServerError, db1)
             | (True, db1) \<Rightarrow>
            (case db_call db1 of
               None \<Rightarrow> (Inl InternalServerError, db1)
             | Some db2 \<Rightarrow>
            (let schedulesInBoardColumnToUpdate =
                   Find_ordered
                     (\<lambda>r. BoardColumnId r = col
                           \<and> (case mvPosition dto of None \<Rightarrow> False | Some pos \<Rightarrow> Position r \<ge> pos)
                           \<and> \<not> IsDeleted r)
                     (tw_schedules db2) in
             if length schedulesInBoardColumnToUpdate = 0 then
               (case db_call db2 of
                  None \<Rightarrow> (Inl InternalServerError, db2)
                | Some db3 \<Rightarrow>
               (let maxPosition =
                      coalesce_max (map Position
                        (filter (\<lambda>r. BoardColumnId r = col \<and> \<not> IsDeleted r) (tw_schedules db3))) in
                case mvPosition dto of
                  None \<Rightarrow> (Inl Panic, db3)
                | Some pos \<Rightarrow>
                    (let logs1 = checkAndLog (ID schedule) uid ''position''
                                   (Itoa (Position schedule)) (Itoa pos) [];
                         logs2 = checkAndLog (ID schedule) uid ''board_column_id''
                                   (Itoa (BoardColumnId schedule)) (Itoa col) logs1
                     in (Inr (schedule\<lparr>Position := maxPosition + 1, BoardColumnId := col\<rparr>,
                              logs2), db3))))
             else
               (case save_shifted 1 schedulesInBoardColumnToUpdate db2 of
                  (False, db3) \<Rightarrow> (Inl InternalServerError, db3)
                | (True, db3) \<Rightarrow>
               (case mvPosition dto of
                  None \<Rightarrow> (Inl Panic, db3)
                | Some pos \<Rightarrow>
                    (let logs1 = checkAndLog (ID schedule) uid ''position''
                                   (Itoa (Position schedule)) (Itoa pos) [];
                         logs2 = checkAndLog (ID schedule) uid ''board_column_id''
                                   (Itoa (BoardColumnId schedule)) (Itoa col) logs1
                     in (Inr (schedule\<lparr>Position := pos, BoardColumnId := col\<rparr>, logs2),
                         db3))))))))"

definition UpdateSchedulePosition ::
  "time \<Rightarrow> update_position_request option \<Rightarrow> nat \<Rightarrow> int option \<Rightarrow> store
     \<Rightarrow> (failure + schedule) \<times> store" where
  "UpdateSchedulePosition now body scheduleId workspaceUserId db =
     (case body of
        None \<Rightarrow> (Inl BadRequest, db)
      | Some scheduleDTO \<Rightarrow>
     (case workspaceUserId of
        None \<Rightarrow> (Inl BadRequest, db)
      | Some uid \<Rightarrow>
     (case db_call db of
        None \<Rightarrow> (Inl InternalServerError, db)
      | Some db1 \<Rightarrow>
     (case First_by_id scheduleId (tw_schedules db1) of
        None \<Rightarrow> (Inl NotFound, db1)
      | Some found \<Rightarrow>
     (case move_block uid scheduleDTO found db1 of
        (Inl e, db2) \<Rightarrow> (Inl e, db2)
      | (Inr (schedule, logs), db2) \<Rightarrow> save_and_respond now schedule logs db2)))))"

section \<open>DeleteSchedule\<close>

definition DeleteSchedule :: "time \<Rightarrow> nat \<Rightarrow> int option \<Rightarrow> store \<Rightarrow> (failure + unit) \<times> store" where
  "DeleteSchedule now scheduleId workspaceUserId db =
     (case workspaceUserId of
        None \<Rightarrow> (Inl BadRequest, db)
      | Some uid \<Rightarrow>
     (case db_call db of
        None \<Rightarrow> (Inl InternalServerError, db)
      | Some db1 \<Rightarrow>
     (case First_by_id scheduleId (tw_schedules db1) of
        None \<Rightarrow> (Inl NotFound, db1)
      | Some found \<Rightarrow>
     (let schedule = found\<lparr>IsDeleted := True, UpdatedAt := Some now, DeletedAt := Some now\<rparr> in
     (case db_call db1 of
        None \<Rightarrow> (Inl InternalServerError, db1)
      | Some db2 \<Rightarrow>
     (let db3 = db2\<lparr>tw_schedules := Save omit_times schedule (tw_schedules db2)\<rparr> in
     (case find_and_shift (- 1)
             (\<lambda>r. BoardColumnId r = BoardColumnId schedule \<and> Position r > Position schedule
                   \<and> \<not> IsDeleted r) db3 of
        (False, db4) \<Rightarrow> (Inl InternalServerError, db4)
      | (True, db4) \<Rightarrow>
     (case db_call db4 of
        None \<Rightarrow> (Inl InternalServerError, db4)
      | Some db5 \<Rightarrow>
          (Inr (),
           db5\<lparr>tw_schedule_logs := tw_schedule_logs db5 @
              [\<lparr>ScheduleId = ID schedule, WorkspaceUserId = uid,
                Action = ''delete schedule'', FieldChanged = [], OldValue = [],
                NewValue = []\<rparr>]\<rparr>)))))))))"

section \<open>Listing a column\<close>

text \<open>
  \<open>boardColumnID\<close> is None for the empty path parameter. \<open>Find\<close> fills the slice it
  is given, so the handlers' \<open>schedules == nil\<close> branch is not taken after a query that
  succeeded. A query with no \<open>Order\<close> returns the rows in the table's order.
\<close>

definition GetSchedulesByBoardColumn ::
  "int option \<Rightarrow> store \<Rightarrow> (failure + schedule list) \<times> store" where
  "GetSchedulesByBoardColumn boardColumnID db =
     (case boardColumnID of
        None \<Rightarrow> (Inl BadRequest, db)
      | Some col \<Rightarrow>
     (case db_call db of
        None \<Rightarrow> (Inl InternalServerError, db)
      | Some db1 \<Rightarrow>
          (Inr (filter (\<lambda>r. BoardColumnId r = col) (tw_schedules db1)), db1)))"

definition getSchedulesByBoardColumn ::
  "int option \<Rightarrow> int \<Rightarrow> store \<Rightarrow> (failure + schedule list) \<times> store" where
  "getSchedulesByBoardColumn boardColumnID workspaceID db =
     (case boardColumnID of
        None \<Rightarrow> (Inl BadRequest, db)
      | Some col \<Rightarrow>
     (case db_call db of
        None \<Rightarrow> (Inl InternalServerError, db)
      | Some db1 \<Rightarrow>
          (Inr (Find_ordered
                  (\<lambda>r. BoardColumnId r = col \<and> WorkspaceId r = workspaceID \<and> \<not> IsDeleted r)
                  (tw_schedules db1)), db1)))"

section \<open>The batches of sibling rows\<close>




section \<open>The dense ordering of a column\<close>

text \<open>
  The active schedules of a column, and the ordering invariant: their positions are
  pairwise different and are exactly the numbers from 1 to their count.
\<close>

definition active_in :: "int \<Rightarrow> schedule list \<Rightarrow> schedule list" where
  "active_in col rows = filter (\<lambda>r. BoardColumnId r = col \<and> \<not> IsDeleted r) rows"

definition dense :: "int \<Rightarrow> schedule list \<Rightarrow> bool" where
  "dense col rows \<longleftrightarrow>
     distinct (map Position (active_in col rows)) \<and>
     set (map Position (active_in col rows)) = {1 .. int (length (active_in col rows))}"

text \<open>
  The three operations that change positions, as requests to the handlers, and the sequence
  of stores a list of requests produces.
\<close>

datatype operation =
    Create time time "create_request option"
  | Move time "update_position_request option" nat "int option"
  | Delete time nat "int option"

fun perform :: "(string \<Rightarrow> time option) \<Rightarrow> operation \<Rightarrow> store \<Rightarrow> store" where
  "perform Parse (Create now now2 body) db = snd (CreateSchedule Parse now now2 body db)"
| "perform Parse (Move now body scheduleId uid) db =
     snd (UpdateSchedulePosition now body scheduleId uid db)"
| "perform Parse (Delete now scheduleId uid) db = snd (DeleteSchedule now scheduleId uid db)"

fun states_after :: "(string \<Rightarrow> time option) \<Rightarrow> operation list \<Rightarrow> store \<Rightarrow> store list" where
  "states_after Parse [] db = []"
| "states_after Parse (op # ops) db =
     perform Parse op db # states_after Parse ops (perform Parse op db)"

text \<open>
  What the handlers do not check and the ordering depends on: a Move or Delete of a schedule
  that is found addresses an active one, and a Move that names a column asks for a position
  that is at least 1 and, within the schedule's own column, at most the number of active
  schedules there.
\<close>

fun in_range :: "operation \<Rightarrow> store \<Rightarrow> bool" where
  "in_range (Create now now2 body) db = True"
| "in_range (Move now body scheduleId uid) db =
     (case First_by_id scheduleId (tw_schedules db) of
        None \<Rightarrow> True
      | Some s \<Rightarrow>
     (case body of
        None \<Rightarrow> True
      | Some dto \<Rightarrow>
     (case mvBoardColumnID dto of
        None \<Rightarrow> True
      | Some col \<Rightarrow>
     (case mvPosition dto of
        None \<Rightarrow> False
      | Some pos \<Rightarrow>
          \<not> IsDeleted s \<and> 1 \<le> pos \<and>
          (col \<noteq> BoardColumnId s \<or> pos \<le> int (length (active_in col (tw_schedules db))))))))"
| "in_range (Delete now scheduleId uid) db =
     (case First_by_id scheduleId (tw_schedules db) of
        None \<Rightarrow> True
      | Some s \<Rightarrow> \<not> IsDeleted s)"

fun all_in_range :: "(string \<Rightarrow> time option) \<Rightarrow> operation list \<Rightarrow> store \<Rightarrow> bool" where
  "all_in_range Parse [] db = True"
| "all_in_range Parse (op # ops) db =
     (in_range op db \<and> all_in_range Parse ops (perform Parse op db))"

section \<open>The change log of an update, field by field\<close>

text \<open>
  What the specification says of the change log, to compare \<open>UpdateSchedule\<close> with: for
  one tracked field, \<open>change\<close> is the log row for a supplied value whose string differs
  from the old one, and nothing otherwise; \<open>expected_logs\<close> puts the twelve fields of the
  patch in a row, each compared with the schedule as it was read. \<open>patched\<close> is the
  schedule with the supplied values written in.
\<close>

definition change ::
  "nat \<Rightarrow> int \<Rightarrow> string \<Rightarrow> string \<Rightarrow> string option \<Rightarrow> schedule_log list" where
  "change scheduleID uid field oldValue supplied =
     (case supplied of
        None \<Rightarrow> []
      | Some newValue \<Rightarrow>
          if oldValue \<noteq> newValue
          then [\<lparr>ScheduleId = scheduleID, WorkspaceUserId = uid, Action = ''update schedule'',
                 FieldChanged = field, OldValue = oldValue, NewValue = newValue\<rparr>]
          else [])"

definition expected_logs :: "(time \<Rightarrow> string) \<Rightarrow> int \<Rightarrow> schedule \<Rightarrow> update_request \<Rightarrow> schedule_log list" where
  "expected_logs String uid s dto =
     change (ID s) uid ''title'' (Title s) (upTitle dto) @
     change (ID s) uid ''description'' (Description s) (upDescription dto) @
     change (ID s) uid ''start_time''
       (case StartTime s of None \<Rightarrow> [] | Some t \<Rightarrow> String t) (upStartTime dto) @
     change (ID s) uid ''end_time''
       (case EndTime s of None \<Rightarrow> [] | Some t \<Rightarrow> String t) (upEndTime dto) @
     change (ID s) uid ''location'' (Location s) (upLocation dto) @
     change (ID s) uid ''status'' (Status s) (upStatus dto) @
     change (ID s) uid ''all_day'' (FormatBool (AllDay s)) (map_option FormatBool (upAllDay dto)) @
     change (ID s) uid ''visibility'' (Visibility s) (upVisibility dto) @
     change (ID s) uid ''extra_data'' (ExtraData s) (upExtraData dto) @
     change (ID s) uid ''recurrence_pattern'' (RecurrencePattern s) (upRecurrencePattern dto) @
     change (ID s) uid ''priority'' (Priority s) (upPriority dto) @
     change (ID s) uid ''video_transcript'' (VideoTranscript s) (upVideoTranscript dto)"

definition supplied_time :: "(string \<Rightarrow> time option) \<Rightarrow> time option \<Rightarrow> string option \<Rightarrow> time option" where
  "supplied_time Parse old supplied =
     (case supplied of
        None \<Rightarrow> old
      | Some str \<Rightarrow> (case Parse str of None \<Rightarrow> old | Some t \<Rightarrow> Some t))"

definition patched :: "(string \<Rightarrow> time option) \<Rightarrow> int \<Rightarrow> schedule \<Rightarrow> update_request \<Rightarrow> schedule" where
  "patched Parse uid s dto =
     s\<lparr>Title := case_option (Title s) (\<lambda>v. v) (upTitle dto),
       Description := case_option (Description s) (\<lambda>v. v) (upDescription dto),
       StartTime := supplied_time Parse (StartTime s) (upStartTime dto),
       EndTime := supplied_time Parse (EndTime s) (upEndTime dto),
       Location := case_option (Location s) (\<lambda>v. v) (upLocation dto),
       Status := case_option (Status s) (\<lambda>v. v) (upStatus dto),
       AllDay := case_option (AllDay s) (\<lambda>v. v) (upAllDay dto),
       Visibility := case_option (Visibility s) (\<lambda>v. v) (upVisibility dto),
       ExtraData := case_option (ExtraData s) (\<lambda>v. v) (upExtraData dto),
       RecurrencePattern := case_option (RecurrencePattern s) (\<lambda>v. v) (upRecurrencePattern dto),
       Priority := case_option (Priority s) (\<lambda>v. v) (upPriority dto),
       VideoTranscript := case_option (VideoTranscript s) (\<lambda>v. v) (upVideoTranscript dto),
       CreatedBy := uid\<rparr>"

section \<open>Concrete boards\<close>

text \<open>
  Rows and stores for evaluating the handlers: \<open>task_card i col pos\<close> is an active schedule
  with id \<open>i\<close> at position \<open>pos\<close> of column \<open>col\<close>, \<open>board rows\<close> a store that never
  fails, with these rows and no log.
\<close>

definition task_card :: "nat \<Rightarrow> int \<Rightarrow> int \<Rightarrow> schedule" where
  "task_card i col pos =
     \<lparr>ID = i, WorkspaceId = 1, BoardColumnId = col, Title = ''task'', Description = [],
      StartTime = Some 100, EndTime = Some 3700, Location = [], CreatedBy = 7,
      CreatedAt = Some 100, UpdatedAt = Some 100, Status = ''not yet'', AllDay = False,
      Visibility = ''public'', ExtraData = [], IsDeleted = False, DeletedAt = None,
      RecurrencePattern = [], Position = pos, Priority = [], VideoTranscript = []\<rparr>"

definition board :: "schedule list \<Rightarrow> store" where
  "board rows =
     \<lparr>tw_schedules = rows, tw_schedule_logs = [], tw_schedule_participants = [],
      calls_left = None\<rparr>"

text \<open>
  An instance of the two library parameters for these evaluations: an instant prints as its
  number of seconds, and the strings that parse are the decimal numbers followed by \<open>Z\<close>.
\<close>

definition seconds_String :: "time \<Rightarrow> string" where
  "seconds_String t = digits t"

fun read_digits :: "string \<Rightarrow> nat \<Rightarrow> nat option" where
  "read_digits [] n = Some n"
| "read_digits (c # cs) n =
     (if c \<in> set ''0123456789'' then read_digits cs (10 * n + (of_char c - 48)) else None)"

definition seconds_Parse :: "string \<Rightarrow> time option" where
  "seconds_Parse str =
     (if 2 \<le> length str \<and> last str = CHR ''Z'' then read_digits (butlast str) 0 else None)"

text \<open>The patch that supplies no field.\<close>

definition no_patch :: update_request where
  "no_patch =
     \<lparr>upTitle = None, upDescription = None, upStartTime = None, upEndTime = None,
      upLocation = None, upStatus = None, upAllDay = None, upVisibility = None,
      upExtraData = None, upRecurrencePattern = None, upPriority = None,
      upVideoTranscript = None\<rparr>"

section \<open>Facts about the store\<close>

lemma db_call_healthy [simp]: "calls_left db = None \<Longrightarrow> db_call db = Some db"
  by (simp add: db_call_def)

lemma same_ID_same_row:
  "distinct (map ID rows) \<Longrightarrow> x \<in> set rows \<Longrightarrow> y \<in> set rows \<Longrightarrow> ID x = ID y \<Longrightarrow> x = y"
  by (meson distinct_map inj_onD)

lemma map_ID_same:
  "(\<And>x. x \<in> set rows \<Longrightarrow> ID (f x) = ID x) \<Longrightarrow> map ID (map f rows) = map ID rows"
  by (induction rows) auto

lemma First_by_id_Some:
  "First_by_id scheduleId rows = Some s \<Longrightarrow> s \<in> set rows \<and> ID s = scheduleId"
  unfolding First_by_id_def by (induction rows) (auto split: if_splits)

lemma Save_found:
  assumes "distinct (map ID rows)" "found \<in> set rows" "ID s = ID found" "om found s = s"
  shows "Save om s rows = map (\<lambda>r. if ID r = ID found then s else r) rows"
  unfolding Save_def
proof (rule map_cong[OF refl])
  fix x assume x: "x \<in> set rows"
  show "(if ID x = ID s then om x s else x) = (if ID x = ID found then s else x)"
    using same_ID_same_row[OF assms(1) x assms(2)] assms(3,4) by auto
qed

lemma save_shifted_healthy:
  assumes "calls_left db = None" "distinct (map ID (tw_schedules db))"
    "distinct (map ID rs)" "set rs \<subseteq> set (tw_schedules db)"
  shows "save_shifted d rs db =
    (True, db\<lparr>tw_schedules :=
       map (\<lambda>x. if ID x \<in> ID ` set rs then x\<lparr>Position := Position x + d\<rparr> else x) (tw_schedules db)\<rparr>)"
  using assms
proof (induction rs arbitrary: db)
  case Nil
  then show ?case by simp
next
  case (Cons r rs)
  let ?r' = "r\<lparr>Position := Position r + d\<rparr>"
  let ?rows1 = "Save omit_deleted_at_times ?r' (tw_schedules db)"
  let ?db1 = "db\<lparr>tw_schedules := ?rows1\<rparr>"
  have r_in: "r \<in> set (tw_schedules db)" using Cons.prems by simp
  have rows1: "?rows1 = map (\<lambda>x. if ID x = ID r then ?r' else x) (tw_schedules db)"
    by (rule Save_found[OF Cons.prems(2) r_in]) (simp_all add: omit_deleted_at_times_def)
  have sub: "set rs \<subseteq> set ?rows1"
  proof
    fix y assume y: "y \<in> set rs"
    then have "y \<in> set (tw_schedules db)" using Cons.prems by auto
    moreover have "ID y \<noteq> ID r" using Cons.prems(3) y by (auto simp: image_iff)
    ultimately show "y \<in> set ?rows1" unfolding rows1 by (auto simp: image_iff)
  qed
  have m1: "map ID ?rows1 = map ID (tw_schedules db)"
    unfolding rows1 by (rule map_ID_same) simp
  have ih: "save_shifted d rs ?db1 =
    (True, ?db1\<lparr>tw_schedules :=
       map (\<lambda>x. if ID x \<in> ID ` set rs then x\<lparr>Position := Position x + d\<rparr> else x) (tw_schedules ?db1)\<rparr>)"
  proof (rule Cons.IH)
    show "calls_left ?db1 = None" using Cons.prems(1) by simp
    show "distinct (map ID (tw_schedules ?db1))" using Cons.prems(2) m1 by simp
    show "distinct (map ID rs)" using Cons.prems(3) by simp
    show "set rs \<subseteq> set (tw_schedules ?db1)" using sub by simp
  qed
  have "map (\<lambda>x. if ID x \<in> ID ` set rs then x\<lparr>Position := Position x + d\<rparr> else x) ?rows1
      = map (\<lambda>x. if ID x \<in> ID ` set (r # rs) then x\<lparr>Position := Position x + d\<rparr> else x) (tw_schedules db)"
    unfolding rows1 map_map
  proof (rule map_cong[OF refl])
    fix x assume x: "x \<in> set (tw_schedules db)"
    have notin: "ID r \<notin> ID ` set rs" using Cons.prems(3) by auto
    show "((\<lambda>x. if ID x \<in> ID ` set rs then x\<lparr>Position := Position x + d\<rparr> else x) \<circ>
         (\<lambda>x. if ID x = ID r then ?r' else x)) x =
         (if ID x \<in> ID ` set (r # rs) then x\<lparr>Position := Position x + d\<rparr> else x)"
      using notin same_ID_same_row[OF Cons.prems(2) x r_in] by auto
  qed
  with ih show ?case using Cons.prems(1) by simp
qed

lemma set_Find_ordered [simp]: "set (Find_ordered P rows) = {r \<in> set rows. P r}"
  by (auto simp: Find_ordered_def)

lemma distinct_ID_Find_ordered:
  assumes "distinct (map ID rows)"
  shows "distinct (map ID (Find_ordered P rows))"
proof -
  have "mset (map ID (Find_ordered P rows)) = mset (map ID (filter P rows))"
    by (simp add: Find_ordered_def)
  moreover have "distinct (map ID (filter P rows))" using assms by (rule distinct_map_filter)
  ultimately show ?thesis by (metis mset_eq_imp_distinct_iff)
qed

lemma save_shifted_where:
  assumes "calls_left db = None" "distinct (map ID (tw_schedules db))"
  shows "save_shifted d (Find_ordered P (tw_schedules db)) db =
    (True, db\<lparr>tw_schedules :=
       map (\<lambda>x. if P x then x\<lparr>Position := Position x + d\<rparr> else x) (tw_schedules db)\<rparr>)"
proof -
  have "map (\<lambda>x. if ID x \<in> ID ` set (Find_ordered P (tw_schedules db)) then x\<lparr>Position := Position x + d\<rparr> else x) (tw_schedules db)
    = map (\<lambda>x. if P x then x\<lparr>Position := Position x + d\<rparr> else x) (tw_schedules db)"
  proof (rule map_cong[OF refl])
    fix x assume x: "x \<in> set (tw_schedules db)"
    have "ID x \<in> ID ` set (Find_ordered P (tw_schedules db)) \<longleftrightarrow> P x"
      using same_ID_same_row[OF assms(2) x] x by auto
    then show "(if ID x \<in> ID ` set (Find_ordered P (tw_schedules db)) then x\<lparr>Position := Position x + d\<rparr> else x)
      = (if P x then x\<lparr>Position := Position x + d\<rparr> else x)" by simp
  qed
  then show ?thesis
    using save_shifted_healthy[OF assms distinct_ID_Find_ordered[OF assms(2)], of P d]
    by auto
qed

lemma find_and_shift_where:
  assumes "calls_left db = None" "distinct (map ID (tw_schedules db))"
  shows "find_and_shift d P db =
    (True, db\<lparr>tw_schedules :=
       map (\<lambda>x. if P x then x\<lparr>Position := Position x + d\<rparr> else x) (tw_schedules db)\<rparr>)"
  unfolding find_and_shift_def using assms save_shifted_where[OF assms] by simp

section \<open>Delete\<close>

lemma DeleteSchedule_rows:
  assumes healthy: "calls_left db = None"
    and ids: "distinct (map ID (tw_schedules db))"
    and found: "First_by_id scheduleId (tw_schedules db) = Some s"
  shows "DeleteSchedule now scheduleId (Some uid) db =
    (Inr (),
     db\<lparr>tw_schedules :=
          map (\<lambda>r. if ID r = scheduleId
                    then r\<lparr>IsDeleted := True, UpdatedAt := Some now, DeletedAt := Some now\<rparr>
                    else if BoardColumnId r = BoardColumnId s \<and> Position s < Position r
                            \<and> \<not> IsDeleted r
                    then r\<lparr>Position := Position r - 1\<rparr>
                    else r)
              (tw_schedules db),
        tw_schedule_logs := tw_schedule_logs db @
          [\<lparr>ScheduleId = scheduleId, WorkspaceUserId = uid, Action = ''delete schedule'',
            FieldChanged = [], OldValue = [], NewValue = []\<rparr>]\<rparr>)"
proof -
  let ?rows = "tw_schedules db"
  let ?del = "s\<lparr>IsDeleted := True, UpdatedAt := Some now, DeletedAt := Some now\<rparr>"
  let ?P = "\<lambda>r. BoardColumnId r = BoardColumnId ?del \<and> Position ?del < Position r \<and> \<not> IsDeleted r"
  from found have s_in: "s \<in> set ?rows" and s_id: "ID s = scheduleId"
    by (auto dest: First_by_id_Some)
  have rows2: "Save omit_times ?del ?rows = map (\<lambda>r. if ID r = ID s then ?del else r) ?rows"
    by (rule Save_found[OF ids s_in]) (simp_all add: omit_times_def)
  let ?db3 = "db\<lparr>tw_schedules := map (\<lambda>r. if ID r = ID s then ?del else r) ?rows\<rparr>"
  have m3: "map ID (map (\<lambda>r. if ID r = ID s then ?del else r) ?rows) = map ID ?rows"
    by (rule map_ID_same) simp
  have sel3: "tw_schedules ?db3 = map (\<lambda>r. if ID r = ID s then ?del else r) ?rows"
    by simp
  have ids3: "distinct (map ID (tw_schedules ?db3))"
    unfolding sel3 m3 by (rule ids)
  have h3: "calls_left ?db3 = None" using healthy by simp
  have shifted: "find_and_shift (- 1) ?P ?db3 =
    (True, ?db3\<lparr>tw_schedules :=
       map (\<lambda>x. if ?P x then x\<lparr>Position := Position x + (- 1)\<rparr> else x) (tw_schedules ?db3)\<rparr>)"
    by (rule find_and_shift_where[OF h3 ids3])
  have final: "map (\<lambda>x. if ?P x then x\<lparr>Position := Position x + (- 1)\<rparr> else x) (tw_schedules ?db3)
     = map (\<lambda>r. if ID r = scheduleId
                    then r\<lparr>IsDeleted := True, UpdatedAt := Some now, DeletedAt := Some now\<rparr>
                    else if BoardColumnId r = BoardColumnId s \<and> Position s < Position r
                            \<and> \<not> IsDeleted r
                    then r\<lparr>Position := Position r - 1\<rparr> else r) ?rows"
    unfolding sel3 map_map
  proof (rule map_cong[OF refl])
    fix x assume x: "x \<in> set ?rows"
    show "((\<lambda>x. if ?P x then x\<lparr>Position := Position x + (- 1)\<rparr> else x) \<circ>
           (\<lambda>r. if ID r = ID s then ?del else r)) x =
          (if ID x = scheduleId
           then x\<lparr>IsDeleted := True, UpdatedAt := Some now, DeletedAt := Some now\<rparr>
           else if BoardColumnId x = BoardColumnId s \<and> Position s < Position x
                            \<and> \<not> IsDeleted x
           then x\<lparr>Position := Position x - 1\<rparr> else x)"
    proof (cases "ID x = scheduleId")
      case True
      then have "x = s" using same_ID_same_row[OF ids x s_in] s_id by simp
      then show ?thesis using s_id by simp
    next
      case False
      then show ?thesis using s_id by simp
    qed
  qed
  have "DeleteSchedule now scheduleId (Some uid) db =
    (case find_and_shift (- 1) ?P ?db3 of
        (False, db4) \<Rightarrow> (Inl InternalServerError, db4)
      | (True, db4) \<Rightarrow>
     (case db_call db4 of
        None \<Rightarrow> (Inl InternalServerError, db4)
      | Some db5 \<Rightarrow>
          (Inr (),
           db5\<lparr>tw_schedule_logs := tw_schedule_logs db5 @
              [\<lparr>ScheduleId = ID ?del, WorkspaceUserId = uid,
                Action = ''delete schedule'', FieldChanged = [], OldValue = [],
                NewValue = []\<rparr>]\<rparr>)))"
    unfolding DeleteSchedule_def Let_def rows2[symmetric]
    using healthy found by simp
  also have "\<dots> = (Inr (),
     db\<lparr>tw_schedules :=
          map (\<lambda>r. if ID r = scheduleId
                    then r\<lparr>IsDeleted := True, UpdatedAt := Some now, DeletedAt := Some now\<rparr>
                    else if BoardColumnId r = BoardColumnId s \<and> Position s < Position r
                            \<and> \<not> IsDeleted r
                    then r\<lparr>Position := Position r - 1\<rparr> else r) ?rows,
        tw_schedule_logs := tw_schedule_logs db @
          [\<lparr>ScheduleId = scheduleId, WorkspaceUserId = uid, Action = ''delete schedule'',
            FieldChanged = [], OldValue = [], NewValue = []\<rparr>]\<rparr>)"
    unfolding shifted final using healthy s_id by simp
  finally show ?thesis .
qed

section \<open>Moves\<close>

lemma Save_after_map:
  assumes ids: "distinct (map ID rows)" and f_in: "found \<in> set rows"
    and same: "ID s = ID found" and fix_found: "f found = found" and om: "om found s = s"
    and f_id: "\<And>x. ID (f x) = ID x"
  shows "Save om s (map f rows) = map (\<lambda>r. if ID r = ID found then s else f r) rows"
  unfolding Save_def map_map
proof (rule map_cong[OF refl])
  fix x assume x: "x \<in> set rows"
  show "((\<lambda>r. if ID r = ID s then om r s else r) \<circ> f) x = (if ID x = ID found then s else f x)"
    using same_ID_same_row[OF ids x f_in] same fix_found om f_id by auto
qed

lemma save_and_respond_healthy:
  assumes healthy: "calls_left db = None"
  shows "save_and_respond now schedule logs db =
    (if StartTime schedule = None \<or> EndTime schedule = None \<or> CreatedAt schedule = None
     then Inl Panic else Inr (schedule\<lparr>UpdatedAt := Some now\<rparr>),
     db\<lparr>tw_schedules := Save omit_deleted_at (schedule\<lparr>UpdatedAt := Some now\<rparr>) (tw_schedules db),
        tw_schedule_logs := tw_schedule_logs db @ logs\<rparr>)"
  unfolding save_and_respond_def Let_def using healthy by (cases logs) simp_all


lemma move_block_within:
  assumes healthy: "calls_left db = None"
    and ids: "distinct (map ID (tw_schedules db))"
    and col: "mvBoardColumnID dto = Some (BoardColumnId s)"
    and pos: "mvPosition dto = Some pos"
  shows "move_block uid dto s db =
    (Inr (s\<lparr>Position := pos\<rparr>,
          checkAndLog (ID s) uid ''position'' (Itoa (Position s)) (Itoa pos) []),
     db\<lparr>tw_schedules :=
        map (\<lambda>r. if BoardColumnId r = BoardColumnId s \<and> \<not> IsDeleted r
                      \<and> pos \<le> Position r \<and> Position r < Position s
                  then r\<lparr>Position := Position r + 1\<rparr>
                  else if BoardColumnId r = BoardColumnId s \<and> \<not> IsDeleted r
                      \<and> Position s < Position r \<and> Position r \<le> pos
                  then r\<lparr>Position := Position r - 1\<rparr>
                  else r) (tw_schedules db)\<rparr>)"
proof -
  let ?g = "\<lambda>r. if BoardColumnId r = BoardColumnId s \<and> \<not> IsDeleted r
                      \<and> pos \<le> Position r \<and> Position r < Position s
                  then r\<lparr>Position := Position r + 1\<rparr>
                  else if BoardColumnId r = BoardColumnId s \<and> \<not> IsDeleted r
                      \<and> Position s < Position r \<and> Position r \<le> pos
                  then r\<lparr>Position := Position r - 1\<rparr>
                  else r"
  let ?up = "\<lambda>r. BoardColumnId r = BoardColumnId s \<and> Position r < Position s
                   \<and> Position r \<ge> pos \<and> \<not> IsDeleted r"
  let ?down = "\<lambda>r. BoardColumnId r = BoardColumnId s \<and> Position r > Position s
                   \<and> Position r \<le> pos \<and> \<not> IsDeleted r"
  have shifted: "(if pos < Position s then find_and_shift 1 ?up db
         else if pos > Position s then find_and_shift (- 1) ?down db
         else (True, db)) = (True, db\<lparr>tw_schedules := map ?g (tw_schedules db)\<rparr>)"
  proof (cases "pos < Position s")
    case True
    have "(\<lambda>x. if ?up x then x\<lparr>Position := Position x + 1\<rparr> else x) = ?g"
      using True by (intro ext) auto
    then show ?thesis using True find_and_shift_where[OF healthy ids, of 1 ?up] by simp
  next
    case False
    show ?thesis
    proof (cases "pos > Position s")
      case True
      have "(\<lambda>x. if ?down x then x\<lparr>Position := Position x + (- 1)\<rparr> else x) = ?g"
        using True by (intro ext) auto
      then show ?thesis
        using True False find_and_shift_where[OF healthy ids, of "- 1" ?down] by simp
    next
      case eq: False
      have "map ?g (tw_schedules db) = tw_schedules db"
        using False eq by (intro map_idI) auto
      then have "db\<lparr>tw_schedules := map ?g (tw_schedules db)\<rparr> = db" by simp
      then show ?thesis using False eq by (simp only: if_False)
    qed
  qed
  show ?thesis
    unfolding move_block_def using col pos
    by (simp only: option.case if_True shifted prod.case bool.case Let_def)
       (simp add: checkAndLog_def)
qed


lemma UpdateSchedulePosition_after_block:
  assumes healthy: "calls_left db = None"
    and ids: "distinct (map ID (tw_schedules db))"
    and found: "First_by_id scheduleId (tw_schedules db) = Some s"
    and block: "move_block uid dto s db = (Inr (moved, logs), db\<lparr>tw_schedules := map f (tw_schedules db)\<rparr>)"
    and moved_id: "ID moved = ID s" and moved_del: "DeletedAt moved = DeletedAt s"
    and f_s: "f s = s" and f_id: "\<And>x. ID (f x) = ID x"
  shows "UpdateSchedulePosition now (Some dto) scheduleId (Some uid) db =
    (if StartTime moved = None \<or> EndTime moved = None \<or> CreatedAt moved = None
     then Inl Panic else Inr (moved\<lparr>UpdatedAt := Some now\<rparr>),
     db\<lparr>tw_schedules :=
          map (\<lambda>r. if ID r = scheduleId then moved\<lparr>UpdatedAt := Some now\<rparr> else f r)
            (tw_schedules db),
        tw_schedule_logs := tw_schedule_logs db @ logs\<rparr>)"
proof -
  from found have s_in: "s \<in> set (tw_schedules db)" and s_id: "ID s = scheduleId"
    by (auto dest: First_by_id_Some)
  let ?db2 = "db\<lparr>tw_schedules := map f (tw_schedules db)\<rparr>"
  have h2: "calls_left ?db2 = None" using healthy by simp
  have saved: "Save omit_deleted_at (moved\<lparr>UpdatedAt := Some now\<rparr>) (map f (tw_schedules db))
      = map (\<lambda>r. if ID r = ID s then moved\<lparr>UpdatedAt := Some now\<rparr> else f r) (tw_schedules db)"
    by (rule Save_after_map[OF ids s_in _ f_s _ f_id])
       (simp_all add: moved_id moved_del omit_deleted_at_def)
  have "UpdateSchedulePosition now (Some dto) scheduleId (Some uid) db =
      save_and_respond now moved logs ?db2"
    unfolding UpdateSchedulePosition_def using healthy found block by simp
  also have "\<dots> = (if StartTime moved = None \<or> EndTime moved = None \<or> CreatedAt moved = None
     then Inl Panic else Inr (moved\<lparr>UpdatedAt := Some now\<rparr>),
     db\<lparr>tw_schedules :=
          map (\<lambda>r. if ID r = scheduleId then moved\<lparr>UpdatedAt := Some now\<rparr> else f r)
            (tw_schedules db),
        tw_schedule_logs := tw_schedule_logs db @ logs\<rparr>)"
    unfolding save_and_respond_healthy[OF h2] using saved s_id by simp
  finally show ?thesis .
qed

lemma UpdateSchedulePosition_within_rows:
  assumes healthy: "calls_left db = None"
    and ids: "distinct (map ID (tw_schedules db))"
    and found: "First_by_id scheduleId (tw_schedules db) = Some s"
    and col: "mvBoardColumnID dto = Some (BoardColumnId s)"
    and pos: "mvPosition dto = Some pos"
  shows "UpdateSchedulePosition now (Some dto) scheduleId (Some uid) db =
    (if StartTime s = None \<or> EndTime s = None \<or> CreatedAt s = None
     then Inl Panic else Inr (s\<lparr>Position := pos, UpdatedAt := Some now\<rparr>),
     db\<lparr>tw_schedules :=
          map (\<lambda>r. if ID r = scheduleId then s\<lparr>Position := pos, UpdatedAt := Some now\<rparr>
                    else if BoardColumnId r = BoardColumnId s \<and> \<not> IsDeleted r
                      \<and> pos \<le> Position r \<and> Position r < Position s
                    then r\<lparr>Position := Position r + 1\<rparr>
                    else if BoardColumnId r = BoardColumnId s \<and> \<not> IsDeleted r
                      \<and> Position s < Position r \<and> Position r \<le> pos
                    then r\<lparr>Position := Position r - 1\<rparr>
                    else r)
            (tw_schedules db),
        tw_schedule_logs := tw_schedule_logs db @
          checkAndLog scheduleId uid ''position'' (Itoa (Position s)) (Itoa pos) []\<rparr>)"
proof -
  from found have s_id: "ID s = scheduleId" by (auto dest: First_by_id_Some)
  show ?thesis
    using UpdateSchedulePosition_after_block[OF healthy ids found
        move_block_within[OF healthy ids col pos, of uid], of now]
    by (simp add: s_id)
qed


lemma filter_map_fixed:
  assumes "\<And>x. x \<in> set rows \<Longrightarrow> C (f x) = C x" "\<And>x. x \<in> set rows \<Longrightarrow> C x \<Longrightarrow> f x = x"
  shows "filter C (map f rows) = filter C rows"
  using assms by (induction rows) auto

lemma Find_ordered_map_empty:
  assumes "\<And>x. Q (f x) = Q x"
  shows "(length (Find_ordered Q (map f rows)) = 0) = (\<not> (\<exists>r\<in>set rows. Q r))"
  by (simp add: Find_ordered_def filter_empty_conv assms)

lemma move_block_across:
  assumes healthy: "calls_left db = None"
    and ids: "distinct (map ID (tw_schedules db))"
    and col: "mvBoardColumnID dto = Some col"
    and other: "col \<noteq> BoardColumnId s"
    and pos: "mvPosition dto = Some pos"
  shows "move_block uid dto s db =
    (Inr (s\<lparr>Position :=
               (if \<exists>r\<in>set (tw_schedules db). BoardColumnId r = col \<and> \<not> IsDeleted r
                      \<and> pos \<le> Position r
                then pos
                else coalesce_max (map Position (active_in col (tw_schedules db))) + 1),
            BoardColumnId := col\<rparr>,
          checkAndLog (ID s) uid ''board_column_id'' (Itoa (BoardColumnId s)) (Itoa col)
            (checkAndLog (ID s) uid ''position'' (Itoa (Position s)) (Itoa pos) [])),
     db\<lparr>tw_schedules :=
        map (\<lambda>r. if BoardColumnId r = BoardColumnId s \<and> \<not> IsDeleted r
                      \<and> Position s < Position r
                  then r\<lparr>Position := Position r - 1\<rparr>
                  else if BoardColumnId r = col \<and> \<not> IsDeleted r \<and> pos \<le> Position r
                  then r\<lparr>Position := Position r + 1\<rparr>
                  else r) (tw_schedules db)\<rparr>)"
proof -
  let ?rows = "tw_schedules db"
  let ?PA = "\<lambda>r. BoardColumnId r = BoardColumnId s \<and> Position r > Position s \<and> \<not> IsDeleted r"
  let ?fA = "\<lambda>x. if ?PA x then x\<lparr>Position := Position x + (- 1)\<rparr> else x"
  let ?Q = "\<lambda>r. BoardColumnId r = col \<and> Position r \<ge> pos \<and> \<not> IsDeleted r"
  let ?C = "\<lambda>r. BoardColumnId r = col \<and> \<not> IsDeleted r"
  let ?g = "\<lambda>r. if BoardColumnId r = BoardColumnId s \<and> \<not> IsDeleted r
                      \<and> Position s < Position r
                  then r\<lparr>Position := Position r - 1\<rparr>
                  else if BoardColumnId r = col \<and> \<not> IsDeleted r \<and> pos \<le> Position r
                  then r\<lparr>Position := Position r + 1\<rparr>
                  else r"
  let ?db1 = "db\<lparr>tw_schedules := map ?fA ?rows\<rparr>"
  let ?logs = "checkAndLog (ID s) uid ''board_column_id'' (Itoa (BoardColumnId s)) (Itoa col)
            (checkAndLog (ID s) uid ''position'' (Itoa (Position s)) (Itoa pos) [])"
  have phaseA: "find_and_shift (- 1) ?PA db = (True, ?db1)"
    by (rule find_and_shift_where[OF healthy ids])
  have h1: "calls_left ?db1 = None" using healthy by simp
  have sel1: "tw_schedules ?db1 = map ?fA ?rows" by simp
  have m1: "map ID (map ?fA ?rows) = map ID ?rows" by (rule map_ID_same) simp
  have ids1: "distinct (map ID (tw_schedules ?db1))" unfolding sel1 m1 by (rule ids)
  have Q_fA: "?Q (?fA x) = ?Q x" for x using other by auto
  have target: "filter ?C (map ?fA ?rows) = filter ?C ?rows"
    by (rule filter_map_fixed) (use other in auto)
  have none_iff: "(length (Find_ordered ?Q (map ?fA ?rows)) = 0) = (\<not> (\<exists>r\<in>set ?rows. ?Q r))"
    using Q_fA by (rule Find_ordered_map_empty[of ?Q ?fA ?rows])
  have unfolded: "move_block uid dto s db =
    (let schedulesInBoardColumnToUpdate = Find_ordered ?Q (map ?fA ?rows) in
     if length schedulesInBoardColumnToUpdate = 0 then
       (Inr (s\<lparr>Position := coalesce_max (map Position (filter ?C (map ?fA ?rows))) + 1,
               BoardColumnId := col\<rparr>, ?logs), ?db1)
     else
       (case save_shifted 1 schedulesInBoardColumnToUpdate ?db1 of
          (False, db3) \<Rightarrow> (Inl InternalServerError, db3)
        | (True, db3) \<Rightarrow> (Inr (s\<lparr>Position := pos, BoardColumnId := col\<rparr>, ?logs), db3)))"
    unfolding move_block_def using col other pos h1
    by (simp only: option.case if_False phaseA prod.case bool.case db_call_healthy Let_def sel1)
  show ?thesis
  proof (cases "\<exists>r\<in>set ?rows. ?Q r")
    case False
    have len0: "length (Find_ordered ?Q (map ?fA ?rows)) = 0"
      using none_iff False by blast
    have nex: "\<not> (\<exists>r\<in>set ?rows. BoardColumnId r = col \<and> \<not> IsDeleted r \<and> pos \<le> Position r)"
      using False by blast
    have eqmap: "map ?g ?rows = map ?fA ?rows"
      using False by (intro map_cong[OF refl]) auto
    have "move_block uid dto s db =
       (Inr (s\<lparr>Position := coalesce_max (map Position (filter ?C (map ?fA ?rows))) + 1,
               BoardColumnId := col\<rparr>, ?logs), ?db1)"
      unfolding unfolded Let_def by (simp only: len0 simp_thms if_True)
    then show ?thesis
      unfolding target eqmap active_in_def by (simp only: nex if_False)
  next
    case True
    have len: "length (Find_ordered ?Q (map ?fA ?rows)) \<noteq> 0"
      using none_iff True by blast
    have ex: "\<exists>r\<in>set ?rows. BoardColumnId r = col \<and> \<not> IsDeleted r \<and> pos \<le> Position r"
      using True by blast
    have shiftB: "save_shifted 1 (Find_ordered ?Q (map ?fA ?rows)) ?db1 =
      (True, ?db1\<lparr>tw_schedules :=
         map (\<lambda>x. if ?Q x then x\<lparr>Position := Position x + 1\<rparr> else x) (map ?fA ?rows)\<rparr>)"
      using save_shifted_where[OF h1 ids1, of 1 ?Q] unfolding sel1 .
    have comp: "map (\<lambda>x. if ?Q x then x\<lparr>Position := Position x + 1\<rparr> else x) (map ?fA ?rows)
        = map ?g ?rows"
      unfolding map_map using other by (intro map_cong[OF refl]) auto
    have "move_block uid dto s db =
       (Inr (s\<lparr>Position := pos, BoardColumnId := col\<rparr>, ?logs),
        ?db1\<lparr>tw_schedules := map ?g ?rows\<rparr>)"
      unfolding unfolded Let_def
      by (simp only: len if_False shiftB comp prod.case bool.case)
    then show ?thesis
      by (simp add: ex)
  qed
qed


lemma UpdateSchedulePosition_across_rows:
  assumes healthy: "calls_left db = None"
    and ids: "distinct (map ID (tw_schedules db))"
    and found: "First_by_id scheduleId (tw_schedules db) = Some s"
    and col: "mvBoardColumnID dto = Some col"
    and other: "col \<noteq> BoardColumnId s"
    and pos: "mvPosition dto = Some pos"
    and placed: "placed =
       (if \<exists>r\<in>set (tw_schedules db). BoardColumnId r = col \<and> \<not> IsDeleted r \<and> pos \<le> Position r
        then pos
        else coalesce_max (map Position (active_in col (tw_schedules db))) + 1)"
  shows "UpdateSchedulePosition now (Some dto) scheduleId (Some uid) db =
    (if StartTime s = None \<or> EndTime s = None \<or> CreatedAt s = None
     then Inl Panic
     else Inr (s\<lparr>Position := placed, BoardColumnId := col, UpdatedAt := Some now\<rparr>),
     db\<lparr>tw_schedules :=
          map (\<lambda>r. if ID r = scheduleId
                    then s\<lparr>Position := placed, BoardColumnId := col, UpdatedAt := Some now\<rparr>
                    else if BoardColumnId r = BoardColumnId s \<and> \<not> IsDeleted r
                      \<and> Position s < Position r
                    then r\<lparr>Position := Position r - 1\<rparr>
                    else if BoardColumnId r = col \<and> \<not> IsDeleted r \<and> pos \<le> Position r
                    then r\<lparr>Position := Position r + 1\<rparr>
                    else r)
            (tw_schedules db),
        tw_schedule_logs := tw_schedule_logs db @
          checkAndLog scheduleId uid ''board_column_id'' (Itoa (BoardColumnId s)) (Itoa col)
            (checkAndLog scheduleId uid ''position'' (Itoa (Position s)) (Itoa pos) [])\<rparr>)"
proof -
  from found have s_id: "ID s = scheduleId" by (auto dest: First_by_id_Some)
  show ?thesis
    using UpdateSchedulePosition_after_block[OF healthy ids found
        move_block_across[OF healthy ids col other pos, of uid], of now] other
    unfolding placed by (simp add: s_id)
qed

lemma coalesce_max_Max:
  assumes "ps \<noteq> []"
  shows "coalesce_max ps = Max (set ps)"
  using assms
proof (cases ps)
  case Nil
  with assms show ?thesis by simp
next
  case (Cons a list)
  then show ?thesis using Max.set_eq_fold[of a list] by simp
qed


lemma First_by_id_moved:
  assumes "First_by_id scheduleId rows = Some s" "ID m = scheduleId" "\<And>x. ID (f x) = ID x"
  shows "First_by_id scheduleId (map (\<lambda>r. if ID r = scheduleId then m else f r) rows) = Some m"
  using assms unfolding First_by_id_def
  by (induction rows) (auto split: if_splits)


section \<open>Updates\<close>

lemma patch_Title_eq: "patch_Title uid dto (s, logs) =
    (s\<lparr>Title := case_option (Title s) (\<lambda>v. v) (upTitle dto)\<rparr>,
     logs @ change (ID s) uid ''title'' (Title s) (upTitle dto))"
  by (cases "upTitle dto") (simp_all add: patch_Title_def change_def checkAndLog_def)

lemma patch_Description_eq: "patch_Description uid dto (s, logs) =
    (s\<lparr>Description := case_option (Description s) (\<lambda>v. v) (upDescription dto)\<rparr>,
     logs @ change (ID s) uid ''description'' (Description s) (upDescription dto))"
  by (cases "upDescription dto") (simp_all add: patch_Description_def change_def checkAndLog_def)

lemma patch_StartTime_eq: "patch_StartTime Parse String uid dto (s, logs) =
    (s\<lparr>StartTime := supplied_time Parse (StartTime s) (upStartTime dto)\<rparr>,
     logs @ change (ID s) uid ''start_time''
       (case StartTime s of None \<Rightarrow> [] | Some t \<Rightarrow> String t) (upStartTime dto))"
proof (cases "upStartTime dto")
  case None
  then show ?thesis by (simp add: patch_StartTime_def change_def supplied_time_def)
next
  case (Some v)
  then show ?thesis
    by (cases "Parse v")
       (simp_all add: patch_StartTime_def change_def supplied_time_def checkAndLog_def
          convertDateFormat_def Let_def)
qed

lemma patch_EndTime_eq: "patch_EndTime Parse String uid dto (s, logs) =
    (s\<lparr>EndTime := supplied_time Parse (EndTime s) (upEndTime dto)\<rparr>,
     logs @ change (ID s) uid ''end_time''
       (case EndTime s of None \<Rightarrow> [] | Some t \<Rightarrow> String t) (upEndTime dto))"
proof (cases "upEndTime dto")
  case None
  then show ?thesis by (simp add: patch_EndTime_def change_def supplied_time_def)
next
  case (Some v)
  then show ?thesis
    by (cases "Parse v")
       (simp_all add: patch_EndTime_def change_def supplied_time_def checkAndLog_def
          convertDateFormat_def Let_def)
qed

lemma patch_Location_eq: "patch_Location uid dto (s, logs) =
    (s\<lparr>Location := case_option (Location s) (\<lambda>v. v) (upLocation dto)\<rparr>,
     logs @ change (ID s) uid ''location'' (Location s) (upLocation dto))"
  by (cases "upLocation dto") (simp_all add: patch_Location_def change_def checkAndLog_def)

lemma patch_Status_eq: "patch_Status uid dto (s, logs) =
    (s\<lparr>Status := case_option (Status s) (\<lambda>v. v) (upStatus dto)\<rparr>,
     logs @ change (ID s) uid ''status'' (Status s) (upStatus dto))"
  by (cases "upStatus dto") (simp_all add: patch_Status_def change_def checkAndLog_def)

lemma patch_AllDay_eq: "patch_AllDay uid dto (s, logs) =
    (s\<lparr>AllDay := case_option (AllDay s) (\<lambda>v. v) (upAllDay dto)\<rparr>,
     logs @ change (ID s) uid ''all_day'' (FormatBool (AllDay s))
       (map_option FormatBool (upAllDay dto)))"
  by (cases "upAllDay dto") (simp_all add: patch_AllDay_def change_def checkAndLog_def)

lemma patch_Visibility_eq: "patch_Visibility uid dto (s, logs) =
    (s\<lparr>Visibility := case_option (Visibility s) (\<lambda>v. v) (upVisibility dto)\<rparr>,
     logs @ change (ID s) uid ''visibility'' (Visibility s) (upVisibility dto))"
  by (cases "upVisibility dto") (simp_all add: patch_Visibility_def change_def checkAndLog_def)

lemma patch_ExtraData_eq: "patch_ExtraData uid dto (s, logs) =
    (s\<lparr>ExtraData := case_option (ExtraData s) (\<lambda>v. v) (upExtraData dto)\<rparr>,
     logs @ change (ID s) uid ''extra_data'' (ExtraData s) (upExtraData dto))"
  by (cases "upExtraData dto") (simp_all add: patch_ExtraData_def change_def checkAndLog_def)

lemma patch_RecurrencePattern_eq: "patch_RecurrencePattern uid dto (s, logs) =
    (s\<lparr>RecurrencePattern :=
         case_option (RecurrencePattern s) (\<lambda>v. v) (upRecurrencePattern dto)\<rparr>,
     logs @ change (ID s) uid ''recurrence_pattern'' (RecurrencePattern s)
       (upRecurrencePattern dto))"
  by (cases "upRecurrencePattern dto")
     (simp_all add: patch_RecurrencePattern_def change_def checkAndLog_def)

lemma patch_Priority_eq: "patch_Priority uid dto (s, logs) =
    (s\<lparr>Priority := case_option (Priority s) (\<lambda>v. v) (upPriority dto)\<rparr>,
     logs @ change (ID s) uid ''priority'' (Priority s) (upPriority dto))"
  by (cases "upPriority dto") (simp_all add: patch_Priority_def change_def checkAndLog_def)

lemma patch_VideoTranscript_eq: "patch_VideoTranscript uid dto (s, logs) =
    (s\<lparr>VideoTranscript := case_option (VideoTranscript s) (\<lambda>v. v) (upVideoTranscript dto)\<rparr>,
     logs @ change (ID s) uid ''video_transcript'' (VideoTranscript s) (upVideoTranscript dto))"
  by (cases "upVideoTranscript dto")
     (simp_all add: patch_VideoTranscript_def change_def checkAndLog_def)

lemma apply_patch_eq:
  "apply_patch Parse String uid dto s = (patched Parse uid s dto, expected_logs String uid s dto)"
  unfolding apply_patch_def patched_def expected_logs_def
    patch_Title_eq patch_Description_eq patch_StartTime_eq patch_EndTime_eq patch_Location_eq
    patch_Status_eq patch_AllDay_eq patch_Visibility_eq patch_ExtraData_eq
    patch_RecurrencePattern_eq patch_Priority_eq patch_VideoTranscript_eq
  by (simp cong del: option.case_cong_weak)


lemma patched_kept [simp]:
  "ID (patched Parse uid s dto) = ID s"
  "WorkspaceId (patched Parse uid s dto) = WorkspaceId s"
  "BoardColumnId (patched Parse uid s dto) = BoardColumnId s"
  "Position (patched Parse uid s dto) = Position s"
  "IsDeleted (patched Parse uid s dto) = IsDeleted s"
  "DeletedAt (patched Parse uid s dto) = DeletedAt s"
  "CreatedAt (patched Parse uid s dto) = CreatedAt s"
  "UpdatedAt (patched Parse uid s dto) = UpdatedAt s"
  "CreatedBy (patched Parse uid s dto) = uid"
  by (simp_all add: patched_def)

lemma patched_supplied [simp]:
  "Title (patched Parse uid s dto) = case_option (Title s) (\<lambda>v. v) (upTitle dto)"
  "Description (patched Parse uid s dto) = case_option (Description s) (\<lambda>v. v) (upDescription dto)"
  "StartTime (patched Parse uid s dto) = supplied_time Parse (StartTime s) (upStartTime dto)"
  "EndTime (patched Parse uid s dto) = supplied_time Parse (EndTime s) (upEndTime dto)"
  "Location (patched Parse uid s dto) = case_option (Location s) (\<lambda>v. v) (upLocation dto)"
  "Status (patched Parse uid s dto) = case_option (Status s) (\<lambda>v. v) (upStatus dto)"
  "AllDay (patched Parse uid s dto) = case_option (AllDay s) (\<lambda>v. v) (upAllDay dto)"
  "Visibility (patched Parse uid s dto) = case_option (Visibility s) (\<lambda>v. v) (upVisibility dto)"
  "ExtraData (patched Parse uid s dto) = case_option (ExtraData s) (\<lambda>v. v) (upExtraData dto)"
  "RecurrencePattern (patched Parse uid s dto)
     = case_option (RecurrencePattern s) (\<lambda>v. v) (upRecurrencePattern dto)"
  "Priority (patched Parse uid s dto) = case_option (Priority s) (\<lambda>v. v) (upPriority dto)"
  "VideoTranscript (patched Parse uid s dto)
     = case_option (VideoTranscript s) (\<lambda>v. v) (upVideoTranscript dto)"
  by (simp_all add: patched_def)

lemma UpdateSchedule_rows:
  assumes healthy: "calls_left db = None"
    and ids: "distinct (map ID (tw_schedules db))"
    and found: "First_by_id scheduleId (tw_schedules db) = Some s"
  shows "UpdateSchedule Parse String now (Some dto) scheduleId (Some uid) db =
    (if StartTime (patched Parse uid s dto) = None \<or> EndTime (patched Parse uid s dto) = None
        \<or> CreatedAt s = None
     then Inl Panic else Inr ((patched Parse uid s dto)\<lparr>UpdatedAt := Some now\<rparr>),
     db\<lparr>tw_schedules :=
          map (\<lambda>r. if ID r = scheduleId then (patched Parse uid s dto)\<lparr>UpdatedAt := Some now\<rparr>
                    else r) (tw_schedules db),
        tw_schedule_logs := tw_schedule_logs db @ expected_logs String uid s dto\<rparr>)"
proof -
  from found have s_in: "s \<in> set (tw_schedules db)" and s_id: "ID s = scheduleId"
    by (auto dest: First_by_id_Some)
  let ?p = "(patched Parse uid s dto)\<lparr>UpdatedAt := Some now\<rparr>"
  have saved: "Save omit_deleted_at ?p (tw_schedules db)
      = map (\<lambda>r. if ID r = ID s then ?p else r) (tw_schedules db)"
    by (rule Save_found[OF ids s_in]) (simp_all add: omit_deleted_at_def)
  have "UpdateSchedule Parse String now (Some dto) scheduleId (Some uid) db =
      save_and_respond now (patched Parse uid s dto) (expected_logs String uid s dto) db"
    unfolding UpdateSchedule_def using healthy found by (simp add: apply_patch_eq)
  also have "\<dots> = (if StartTime (patched Parse uid s dto) = None
        \<or> EndTime (patched Parse uid s dto) = None \<or> CreatedAt s = None
     then Inl Panic else Inr ?p,
     db\<lparr>tw_schedules := map (\<lambda>r. if ID r = scheduleId then ?p else r) (tw_schedules db),
        tw_schedule_logs := tw_schedule_logs db @ expected_logs String uid s dto\<rparr>)"
    unfolding save_and_respond_healthy[OF healthy] saved s_id by simp
  finally show ?thesis .
qed

lemma digits_3700: "digits 3700 = ''3700''"
  by (simp add: digits.simps)


lemma filter_change:
  "filter (\<lambda>l. FieldChanged l = f) (change scheduleID uid g old supplied)
     = (if g = f then change scheduleID uid g old supplied else [])"
  by (cases supplied) (simp_all add: change_def)

lemma start_time_rows:
  "filter (\<lambda>l. FieldChanged l = ''start_time'') (expected_logs String uid s dto)
     = change (ID s) uid ''start_time''
         (case StartTime s of None \<Rightarrow> [] | Some t \<Rightarrow> String t) (upStartTime dto)"
  unfolding expected_logs_def filter_append filter_change by simp

lemma end_time_rows:
  "filter (\<lambda>l. FieldChanged l = ''end_time'') (expected_logs String uid s dto)
     = change (ID s) uid ''end_time''
         (case EndTime s of None \<Rightarrow> [] | Some t \<Rightarrow> String t) (upEndTime dto)"
  unfolding expected_logs_def filter_append filter_change by simp


section \<open>A store that fails\<close>

lemma db_call_budget [simp]:
  "calls_left db = Some (Suc n) \<Longrightarrow> db_call db = Some (db\<lparr>calls_left := Some n\<rparr>)"
  "calls_left db = Some 0 \<Longrightarrow> db_call db = None"
  by (simp_all add: db_call_def)












section \<open>The dense ordering under the operations\<close>

lemma distinct_rows: "distinct (map ID rows) \<Longrightarrow> distinct rows"
  by (simp add: distinct_map)

lemma set_active_in [simp]:
  "set (active_in c rows) = {r \<in> set rows. BoardColumnId r = c \<and> \<not> IsDeleted r}"
  by (auto simp: active_in_def)

lemma dense_sets:
  assumes "distinct (map ID rows)"
  shows "dense c rows \<longleftrightarrow>
    inj_on Position {r \<in> set rows. BoardColumnId r = c \<and> \<not> IsDeleted r} \<and>
    Position ` {r \<in> set rows. BoardColumnId r = c \<and> \<not> IsDeleted r}
      = {1 .. int (card {r \<in> set rows. BoardColumnId r = c \<and> \<not> IsDeleted r})}"
proof -
  have d: "distinct (active_in c rows)"
    unfolding active_in_def using distinct_rows[OF assms] by simp
  have l: "length (active_in c rows) = card {r \<in> set rows. BoardColumnId r = c \<and> \<not> IsDeleted r}"
    using distinct_card[OF d] by simp
  show ?thesis
    unfolding dense_def distinct_map l using d by simp
qed

lemma dense_remap:
  assumes ids: "distinct (map ID rows)" and g_id: "\<And>x. ID (g x) = ID x"
    and inj: "inj_on (\<lambda>r. Position (g r))
                {r \<in> set rows. BoardColumnId (g r) = c \<and> \<not> IsDeleted (g r)}"
    and img: "(\<lambda>r. Position (g r)) ` {r \<in> set rows. BoardColumnId (g r) = c \<and> \<not> IsDeleted (g r)}
                = {1 .. int (card {r \<in> set rows. BoardColumnId (g r) = c \<and> \<not> IsDeleted (g r)})}"
  shows "dense c (map g rows)"
proof -
  let ?T = "{r \<in> set rows. BoardColumnId (g r) = c \<and> \<not> IsDeleted (g r)}"
  let ?F = "filter (\<lambda>r. BoardColumnId (g r) = c \<and> \<not> IsDeleted (g r)) rows"
  have act: "active_in c (map g rows) = map g ?F"
    by (simp add: active_in_def filter_map comp_def)
  have dF: "distinct ?F" using distinct_rows[OF ids] by simp
  have sF: "set ?F = ?T" by auto
  have lF: "length ?F = card ?T" using distinct_card[OF dF] sF by simp
  have "distinct (map (\<lambda>r. Position (g r)) ?F)"
    unfolding distinct_map sF using dF inj by simp
  moreover have "set (map (\<lambda>r. Position (g r)) ?F) = {1 .. int (length ?F)}"
    unfolding lF using img sF by simp
  ultimately show ?thesis
    unfolding dense_def act by (simp add: comp_def)
qed

lemma dense_unchanged:
  assumes ids: "distinct (map ID rows)" and g_id: "\<And>x. ID (g x) = ID x"
    and same_act: "\<And>x. x \<in> set rows \<Longrightarrow>
        (BoardColumnId (g x) = c \<and> \<not> IsDeleted (g x)) = (BoardColumnId x = c \<and> \<not> IsDeleted x)"
    and same_pos: "\<And>x. x \<in> set rows \<Longrightarrow> BoardColumnId x = c \<Longrightarrow> \<not> IsDeleted x
        \<Longrightarrow> Position (g x) = Position x"
    and dense: "dense c rows"
  shows "dense c (map g rows)"
proof (rule dense_remap[OF ids g_id])
  let ?S = "{r \<in> set rows. BoardColumnId r = c \<and> \<not> IsDeleted r}"
  let ?T = "{r \<in> set rows. BoardColumnId (g r) = c \<and> \<not> IsDeleted (g r)}"
  have TS: "?T = ?S" using same_act by auto
  from dense have inj: "inj_on Position ?S" and img: "Position ` ?S = {1 .. int (card ?S)}"
    unfolding dense_sets[OF ids] by auto
  show "inj_on (\<lambda>r. Position (g r)) ?T"
    unfolding TS using inj same_pos by (auto simp: inj_on_def)
  have "(\<lambda>r. Position (g r)) ` ?S = Position ` ?S"
    using same_pos by (intro image_cong) auto
  then show "(\<lambda>r. Position (g r)) ` ?T = {1 .. int (card ?T)}"
    unfolding TS using img by simp
qed


lemma remap_close_gap:
  fixes pos :: "'a \<Rightarrow> int"
  assumes fin: "finite S" and inj: "inj_on pos S" and img: "pos ` S = {1 .. int (card S)}"
    and s: "s \<in> S"
    and f: "\<And>r. r \<in> S - {s} \<Longrightarrow> f r = (if pos s < pos r then pos r - 1 else pos r)"
  shows "inj_on f (S - {s}) \<and> f ` (S - {s}) = {1 .. int (card (S - {s}))}"
proof
  have range: "1 \<le> pos r \<and> pos r \<le> int (card S)" if "r \<in> S" for r
    using that img by (metis atLeastAtMost_iff imageI)
  have other: "pos r \<noteq> pos s" if "r \<in> S - {s}" for r
    using that inj s by (auto simp: inj_on_def)
  show "inj_on f (S - {s})"
  proof (rule inj_onI)
    fix a b assume a: "a \<in> S - {s}" and b: "b \<in> S - {s}" and e: "f a = f b"
    have "pos a = pos b"
      using e f[OF a] f[OF b] other[OF a] other[OF b] by (auto split: if_splits)
    then show "a = b" using inj a b by (auto simp: inj_on_def)
  qed
  have "card S > 0" using fin s by (auto simp: card_gt_0_iff)
  then have c: "int (card (S - {s})) = int (card S) - 1"
    using fin s by (simp add: card_Diff_singleton of_nat_diff)
  show "f ` (S - {s}) = {1 .. int (card (S - {s}))}"
    unfolding c
  proof (intro set_eqI iffI)
    fix y assume "y \<in> f ` (S - {s})"
    then obtain r where r: "r \<in> S - {s}" and y: "y = f r" by auto
    from r have "r \<in> S" by simp
    with range[of r] range[OF s] other[OF r] show "y \<in> {1 .. int (card S) - 1}"
      unfolding y f[OF r] by auto
  next
    fix y assume y: "y \<in> {1 .. int (card S) - 1}"
    let ?q = "if y < pos s then y else y + 1"
    have "?q \<in> {1 .. int (card S)}" using y by auto
    then obtain r where r: "r \<in> S" and q: "pos r = ?q" using img by (metis imageE)
    have "r \<noteq> s" using q by (auto split: if_splits)
    with r have r': "r \<in> S - {s}" by simp
    have "f r = y" unfolding f[OF r'] q by auto
    with r' show "y \<in> f ` (S - {s})" by blast
  qed
qed

lemma remap_rotate:
  fixes pos :: "'a \<Rightarrow> int"
  assumes fin: "finite S" and inj: "inj_on pos S" and img: "pos ` S = {1 .. int (card S)}"
    and s: "s \<in> S" and lo: "1 \<le> np" and hi: "np \<le> int (card S)"
    and f: "\<And>r. r \<in> S \<Longrightarrow> f r =
              (if r = s then np
               else if np \<le> pos r \<and> pos r < pos s then pos r + 1
               else if pos s < pos r \<and> pos r \<le> np then pos r - 1
               else pos r)"
  shows "inj_on f S \<and> f ` S = {1 .. int (card S)}"
proof -
  have range: "1 \<le> pos r \<and> pos r \<le> int (card S)" if "r \<in> S" for r
    using that img by (metis atLeastAtMost_iff imageI)
  have other: "pos r \<noteq> pos s" if "r \<in> S" "r \<noteq> s" for r
    using that inj s by (auto simp: inj_on_def)
  have injf: "inj_on f S"
  proof (rule inj_onI)
    fix a b assume a: "a \<in> S" and b: "b \<in> S" and e: "f a = f b"
    show "a = b"
    proof (rule ccontr)
      assume ne: "a \<noteq> b"
      then have "pos a \<noteq> pos b" using inj a b by (auto simp: inj_on_def)
      with e f[OF a] f[OF b] other[OF a] other[OF b] ne show False
        by (auto split: if_splits)
    qed
  qed
  have sub: "f ` S \<subseteq> {1 .. int (card S)}"
  proof
    fix y assume "y \<in> f ` S"
    then obtain r where r: "r \<in> S" and y: "y = f r" by auto
    show "y \<in> {1 .. int (card S)}"
      unfolding y f[OF r] using range[OF r] range[OF s] lo hi by auto
  qed
  have "card (f ` S) = card S" using injf by (rule card_image)
  then have "card (f ` S) = card {1 .. int (card S)}" by simp
  with sub have "f ` S = {1 .. int (card S)}"
    by (intro card_subset_eq) auto
  with injf show ?thesis by simp
qed

lemma remap_open_slot:
  fixes pos :: "'a \<Rightarrow> int"
  assumes fin: "finite S" and inj: "inj_on pos S" and img: "pos ` S = {1 .. int (card S)}"
    and s: "s \<notin> S" and lo: "1 \<le> tp"
    and f: "\<And>r. r \<in> S \<Longrightarrow> f r = (if tp \<le> pos r then pos r + 1 else pos r)"
    and fs: "f s = (if \<exists>r\<in>S. tp \<le> pos r then tp else int (card S) + 1)"
  shows "inj_on f (insert s S) \<and> f ` insert s S = {1 .. int (card (insert s S))}"
proof -
  have range: "1 \<le> pos r \<and> pos r \<le> int (card S)" if "r \<in> S" for r
    using that img by (metis atLeastAtMost_iff imageI)
  have top: "tp \<le> int (card S)" if "\<exists>r\<in>S. tp \<le> pos r"
    using that range by force
  have fs_range: "1 \<le> f s \<and> f s \<le> int (card S) + 1"
  proof (cases "\<exists>r\<in>S. tp \<le> pos r")
    case True
    with top[OF True] lo show ?thesis unfolding fs by simp
  next
    case False
    then show ?thesis unfolding fs by simp
  qed
  have fs_new: "f r \<noteq> f s" if r: "r \<in> S" for r
  proof (cases "\<exists>r\<in>S. tp \<le> pos r")
    case True
    then show ?thesis unfolding f[OF r] fs by auto
  next
    case False
    then have "\<not> tp \<le> pos r" using r by blast
    then show ?thesis unfolding f[OF r] fs using False range[OF r] by auto
  qed
  have injf: "inj_on f (insert s S)"
  proof (rule inj_onI)
    fix a b assume a: "a \<in> insert s S" and b: "b \<in> insert s S" and e: "f a = f b"
    show "a = b"
    proof (cases "a = s \<or> b = s")
      case True
      then show ?thesis using a b e fs_new by (metis insertE)
    next
      case False
      then have a': "a \<in> S" and b': "b \<in> S" using a b by auto
      have "pos a = pos b" using e f[OF a'] f[OF b'] by (auto split: if_splits)
      then show ?thesis using inj a' b' by (auto simp: inj_on_def)
    qed
  qed
  have c: "int (card (insert s S)) = int (card S) + 1" using fin s by simp
  have sub: "f ` insert s S \<subseteq> {1 .. int (card (insert s S))}"
  proof
    fix y assume "y \<in> f ` insert s S"
    then obtain r where r: "r \<in> insert s S" and y: "y = f r" by auto
    show "y \<in> {1 .. int (card (insert s S))}"
    proof (cases "r = s")
      case True
      then show ?thesis unfolding y c using fs_range by simp
    next
      case False
      with r have r': "r \<in> S" by simp
      show ?thesis unfolding y c f[OF r'] using range[OF r'] by auto
    qed
  qed
  have "card (f ` insert s S) = card (insert s S)" using injf by (rule card_image)
  then have "card (f ` insert s S) = card {1 .. int (card (insert s S))}" by simp
  with sub have "f ` insert s S = {1 .. int (card (insert s S))}"
    by (intro card_subset_eq) auto
  with injf show ?thesis by simp
qed


lemma finite_active: "finite {r \<in> set rows. BoardColumnId r = c \<and> \<not> IsDeleted r}"
  by simp

lemma dense_after_delete:
  assumes ids: "distinct (map ID rows)"
    and found: "First_by_id scheduleId rows = Some s"
    and active: "\<not> IsDeleted s"
    and dense: "dense c rows"
  shows "dense c (map (\<lambda>r. if ID r = scheduleId
                    then r\<lparr>IsDeleted := True, UpdatedAt := Some now, DeletedAt := Some now\<rparr>
                    else if BoardColumnId r = BoardColumnId s \<and> Position s < Position r
                            \<and> \<not> IsDeleted r
                    then r\<lparr>Position := Position r - 1\<rparr>
                    else r) rows)"
proof -
  let ?g = "\<lambda>r. if ID r = scheduleId
                    then r\<lparr>IsDeleted := True, UpdatedAt := Some now, DeletedAt := Some now\<rparr>
                    else if BoardColumnId r = BoardColumnId s \<and> Position s < Position r
                            \<and> \<not> IsDeleted r
                    then r\<lparr>Position := Position r - 1\<rparr>
                    else r"
  let ?S = "{r \<in> set rows. BoardColumnId r = c \<and> \<not> IsDeleted r}"
  let ?T = "{r \<in> set rows. BoardColumnId (?g r) = c \<and> \<not> IsDeleted (?g r)}"
  from found have s_in: "s \<in> set rows" and s_id: "ID s = scheduleId"
    by (auto dest: First_by_id_Some)
  have is_s: "ID r = scheduleId \<longleftrightarrow> r = s" if "r \<in> set rows" for r
    using same_ID_same_row[OF ids that s_in] s_id by auto
  have g_id: "ID (?g x) = ID x" for x by simp
  from dense have inj: "inj_on Position ?S" and img: "Position ` ?S = {1 .. int (card ?S)}"
    unfolding dense_sets[OF ids] by auto
  show ?thesis
  proof (cases "c = BoardColumnId s")
    case True
    have s_S: "s \<in> ?S" using s_in active True by simp
    have T: "?T = ?S - {s}" using is_s by auto
    have f: "Position (?g r) = (if Position s < Position r then Position r - 1 else Position r)"
      if "r \<in> ?S - {s}" for r
      using that is_s True by auto
    from remap_close_gap[OF finite_active inj img s_S f]
    have "inj_on (\<lambda>r. Position (?g r)) (?S - {s})"
      and "(\<lambda>r. Position (?g r)) ` (?S - {s}) = {1 .. int (card (?S - {s}))}"
      by auto
    then show ?thesis
      by (intro dense_remap[OF ids g_id]) (simp_all only: T)
  next
    case False
    show ?thesis
    proof (rule dense_unchanged[OF ids g_id _ _ dense])
      fix x assume x: "x \<in> set rows"
      show "(BoardColumnId (?g x) = c \<and> \<not> IsDeleted (?g x)) = (BoardColumnId x = c \<and> \<not> IsDeleted x)"
        using is_s[OF x] False by auto
      show "Position (?g x) = Position x" if "BoardColumnId x = c" "\<not> IsDeleted x"
        using that is_s[OF x] False by auto
    qed
  qed
qed


lemma dense_after_within:
  assumes ids: "distinct (map ID rows)"
    and found: "First_by_id scheduleId rows = Some s"
    and active: "\<not> IsDeleted s"
    and lo: "1 \<le> pos" and hi: "pos \<le> int (length (active_in (BoardColumnId s) rows))"
    and dense: "dense c rows"
  shows "dense c (map (\<lambda>r. if ID r = scheduleId then s\<lparr>Position := pos, UpdatedAt := Some now\<rparr>
                    else if BoardColumnId r = BoardColumnId s \<and> \<not> IsDeleted r
                      \<and> pos \<le> Position r \<and> Position r < Position s
                    then r\<lparr>Position := Position r + 1\<rparr>
                    else if BoardColumnId r = BoardColumnId s \<and> \<not> IsDeleted r
                      \<and> Position s < Position r \<and> Position r \<le> pos
                    then r\<lparr>Position := Position r - 1\<rparr>
                    else r) rows)"
proof -
  let ?g = "\<lambda>r. if ID r = scheduleId then s\<lparr>Position := pos, UpdatedAt := Some now\<rparr>
                    else if BoardColumnId r = BoardColumnId s \<and> \<not> IsDeleted r
                      \<and> pos \<le> Position r \<and> Position r < Position s
                    then r\<lparr>Position := Position r + 1\<rparr>
                    else if BoardColumnId r = BoardColumnId s \<and> \<not> IsDeleted r
                      \<and> Position s < Position r \<and> Position r \<le> pos
                    then r\<lparr>Position := Position r - 1\<rparr>
                    else r"
  let ?S = "{r \<in> set rows. BoardColumnId r = c \<and> \<not> IsDeleted r}"
  let ?T = "{r \<in> set rows. BoardColumnId (?g r) = c \<and> \<not> IsDeleted (?g r)}"
  from found have s_in: "s \<in> set rows" and s_id: "ID s = scheduleId"
    by (auto dest: First_by_id_Some)
  have is_s: "ID r = scheduleId \<longleftrightarrow> r = s" if "r \<in> set rows" for r
    using same_ID_same_row[OF ids that s_in] s_id by auto
  have g_id: "ID (?g x) = ID x" for x using s_id by simp
  from dense have inj: "inj_on Position ?S" and img: "Position ` ?S = {1 .. int (card ?S)}"
    unfolding dense_sets[OF ids] by auto
  have T: "?T = ?S" using is_s by auto
  show ?thesis
  proof (cases "c = BoardColumnId s")
    case True
    have s_S: "s \<in> ?S" using s_in active True by simp
    have "distinct (active_in c rows)"
      unfolding active_in_def using distinct_rows[OF ids] by simp
    then have "length (active_in c rows) = card ?S" using distinct_card by fastforce
    with hi True have hi': "pos \<le> int (card ?S)" by simp
    have f: "Position (?g r) =
              (if r = s then pos
               else if pos \<le> Position r \<and> Position r < Position s then Position r + 1
               else if Position s < Position r \<and> Position r \<le> pos then Position r - 1
               else Position r)" if "r \<in> ?S" for r
      using that is_s True by auto
    from remap_rotate[OF finite_active inj img s_S lo hi' f]
    have "inj_on (\<lambda>r. Position (?g r)) ?S"
      and "(\<lambda>r. Position (?g r)) ` ?S = {1 .. int (card ?S)}"
      by auto
    then show ?thesis
      by (intro dense_remap[OF ids g_id]) (simp_all only: T)
  next
    case False
    show ?thesis
    proof (rule dense_unchanged[OF ids g_id _ _ dense])
      fix x assume x: "x \<in> set rows"
      show "(BoardColumnId (?g x) = c \<and> \<not> IsDeleted (?g x)) = (BoardColumnId x = c \<and> \<not> IsDeleted x)"
        using is_s[OF x] by auto
      show "Position (?g x) = Position x" if "BoardColumnId x = c" "\<not> IsDeleted x"
        using that is_s[OF x] False by auto
    qed
  qed
qed

lemma coalesce_max_dense:
  assumes ids: "distinct (map ID rows)" and dense: "dense c rows"
  shows "coalesce_max (map Position (active_in c rows))
    = int (card {r \<in> set rows. BoardColumnId r = c \<and> \<not> IsDeleted r})"
proof (cases "active_in c rows = []")
  case True
  then have "{r \<in> set rows. BoardColumnId r = c \<and> \<not> IsDeleted r} = {}"
    using set_active_in[of c rows] by simp
  with True show ?thesis by simp
next
  case False
  let ?S = "{r \<in> set rows. BoardColumnId r = c \<and> \<not> IsDeleted r}"
  from dense have img: "Position ` ?S = {1 .. int (card ?S)}"
    unfolding dense_sets[OF ids] by auto
  have ne: "?S \<noteq> {}" using False set_active_in[of c rows] by (metis set_empty)
  then have pos: "0 < card ?S" by (simp add: card_gt_0_iff)
  have "coalesce_max (map Position (active_in c rows)) = Max (set (map Position (active_in c rows)))"
    using False by (intro coalesce_max_Max) simp
  also have "\<dots> = Max {1 .. int (card ?S)}" using img by simp
  also have "\<dots> = int (card ?S)" using pos by (intro Max_eqI) auto
  finally show ?thesis .
qed

lemma dense_after_across:
  assumes ids: "distinct (map ID rows)"
    and found: "First_by_id scheduleId rows = Some s"
    and active: "\<not> IsDeleted s"
    and other: "col \<noteq> BoardColumnId s"
    and lo: "1 \<le> pos"
    and placed: "placed =
       (if \<exists>r\<in>set rows. BoardColumnId r = col \<and> \<not> IsDeleted r \<and> pos \<le> Position r
        then pos
        else coalesce_max (map Position (active_in col rows)) + 1)"
    and dense_col: "dense col rows"
    and dense: "dense c rows"
  shows "dense c (map (\<lambda>r. if ID r = scheduleId
                    then s\<lparr>Position := placed, BoardColumnId := col, UpdatedAt := Some now\<rparr>
                    else if BoardColumnId r = BoardColumnId s \<and> \<not> IsDeleted r
                      \<and> Position s < Position r
                    then r\<lparr>Position := Position r - 1\<rparr>
                    else if BoardColumnId r = col \<and> \<not> IsDeleted r \<and> pos \<le> Position r
                    then r\<lparr>Position := Position r + 1\<rparr>
                    else r) rows)"
proof -
  let ?g = "\<lambda>r. if ID r = scheduleId
                    then s\<lparr>Position := placed, BoardColumnId := col, UpdatedAt := Some now\<rparr>
                    else if BoardColumnId r = BoardColumnId s \<and> \<not> IsDeleted r
                      \<and> Position s < Position r
                    then r\<lparr>Position := Position r - 1\<rparr>
                    else if BoardColumnId r = col \<and> \<not> IsDeleted r \<and> pos \<le> Position r
                    then r\<lparr>Position := Position r + 1\<rparr>
                    else r"
  let ?S = "{r \<in> set rows. BoardColumnId r = c \<and> \<not> IsDeleted r}"
  let ?T = "{r \<in> set rows. BoardColumnId (?g r) = c \<and> \<not> IsDeleted (?g r)}"
  from found have s_in: "s \<in> set rows" and s_id: "ID s = scheduleId"
    by (auto dest: First_by_id_Some)
  have is_s: "ID r = scheduleId \<longleftrightarrow> r = s" if "r \<in> set rows" for r
    using same_ID_same_row[OF ids that s_in] s_id by auto
  have g_id: "ID (?g x) = ID x" for x using s_id by simp
  from dense have inj: "inj_on Position ?S" and img: "Position ` ?S = {1 .. int (card ?S)}"
    unfolding dense_sets[OF ids] by auto
  consider (source) "c = BoardColumnId s" | (target) "c = col" | (other) "c \<noteq> BoardColumnId s" "c \<noteq> col"
    by blast
  then show ?thesis
  proof cases
    case source
    have s_S: "s \<in> ?S" using s_in active source by simp
    have T: "?T = ?S - {s}" using is_s other source active by auto
    have f: "Position (?g r) = (if Position s < Position r then Position r - 1 else Position r)"
      if "r \<in> ?S - {s}" for r
      using that is_s source other by auto
    from remap_close_gap[OF finite_active inj img s_S f]
    have "inj_on (\<lambda>r. Position (?g r)) (?S - {s})"
      and "(\<lambda>r. Position (?g r)) ` (?S - {s}) = {1 .. int (card (?S - {s}))}"
      by auto
    then show ?thesis
      by (intro dense_remap[OF ids g_id]) (simp_all only: T)
  next
    case target
    have s_S: "s \<notin> ?S" using other target by simp
    have T: "?T = insert s ?S" using is_s other target active s_in by auto
    have f: "Position (?g r) = (if pos \<le> Position r then Position r + 1 else Position r)"
      if "r \<in> ?S" for r
      using that is_s target other by auto
    have "placed = (if \<exists>r\<in>?S. pos \<le> Position r then pos else int (card ?S) + 1)"
      unfolding placed coalesce_max_dense[OF ids dense_col] target by auto
    then have fs: "Position (?g s) = (if \<exists>r\<in>?S. pos \<le> Position r then pos else int (card ?S) + 1)"
      using s_id by simp
    from remap_open_slot[OF finite_active inj img s_S lo f fs]
    have "inj_on (\<lambda>r. Position (?g r)) (insert s ?S)"
      and "(\<lambda>r. Position (?g r)) ` insert s ?S = {1 .. int (card (insert s ?S))}"
      by auto
    then show ?thesis
      by (intro dense_remap[OF ids g_id]) (simp_all only: T)
  next
    case other
    show ?thesis
    proof (rule dense_unchanged[OF ids g_id _ _ dense])
      fix x assume x: "x \<in> set rows"
      show "(BoardColumnId (?g x) = c \<and> \<not> IsDeleted (?g x)) = (BoardColumnId x = c \<and> \<not> IsDeleted x)"
        using is_s[OF x] other by auto
      show "Position (?g x) = Position x" if "BoardColumnId x = c" "\<not> IsDeleted x"
        using that is_s[OF x] other by auto
    qed
  qed
qed

lemma fold_max_ge:
  assumes "(x::nat) \<in> set xs"
  shows "x \<le> fold max xs a"
proof -
  have "fold max xs a = Max (set (a # xs))" by (rule Max.set_eq_fold[symmetric])
  moreover have "x \<le> Max (set (a # xs))" using assms by (intro Max_ge) auto
  ultimately show ?thesis by simp
qed

lemma next_id_fresh: "next_id rows \<notin> set (map ID rows)"
proof
  assume "next_id rows \<in> set (map ID rows)"
  then have "next_id rows \<le> fold max (map ID rows) 0" by (rule fold_max_ge)
  then show False by (simp add: next_id_def)
qed

lemma dense_after_create:
  assumes dense: "dense c rows"
    and active: "\<not> IsDeleted n"
    and pos: "Position n = int (length (active_in (BoardColumnId n) rows)) + 1"
  shows "dense c (rows @ [n])"
proof (cases "BoardColumnId n = c")
  case True
  have act: "active_in c (rows @ [n]) = active_in c rows @ [n]"
    using True active by (simp add: active_in_def)
  have "{1 .. int (length (active_in c rows))} \<union> {int (length (active_in c rows)) + 1}
      = {1 .. int (length (active_in c rows)) + 1}"
    by auto
  then show ?thesis
    using dense pos True unfolding dense_def act by auto
next
  case False
  then have "active_in c (rows @ [n]) = active_in c rows" by (simp add: active_in_def)
  then show ?thesis using dense unfolding dense_def by simp
qed

lemma CreateSchedule_healthy:
  assumes healthy: "calls_left db = None"
  shows "calls_left (snd (CreateSchedule Parse now now2 body db)) = None
    \<and> (tw_schedules (snd (CreateSchedule Parse now now2 body db)) = tw_schedules db
        \<or> (\<exists>n. tw_schedules (snd (CreateSchedule Parse now now2 body db)) = tw_schedules db @ [n]
              \<and> ID n = next_id (tw_schedules db) \<and> \<not> IsDeleted n
              \<and> Position n = int (length (active_in (BoardColumnId n) (tw_schedules db))) + 1))"
  unfolding CreateSchedule_def Let_def using healthy
  by (simp add: active_in_def split: option.splits)


lemma perform_Create_invariant:
  assumes healthy: "calls_left db = None"
    and ids: "distinct (map ID (tw_schedules db))"
    and dense: "\<And>c. dense c (tw_schedules db)"
  shows "calls_left (perform Parse (Create now now2 body) db) = None
    \<and> distinct (map ID (tw_schedules (perform Parse (Create now now2 body) db)))
    \<and> (\<forall>c. dense c (tw_schedules (perform Parse (Create now now2 body) db)))"
proof -
  let ?db' = "snd (CreateSchedule Parse now now2 body db)"
  note c = CreateSchedule_healthy[OF healthy, of Parse now now2 body]
  from c have h': "calls_left ?db' = None" by blast
  from c consider (same) "tw_schedules ?db' = tw_schedules db"
    | (new) n where "tw_schedules ?db' = tw_schedules db @ [n]"
        "ID n = next_id (tw_schedules db)" "\<not> IsDeleted n"
        "Position n = int (length (active_in (BoardColumnId n) (tw_schedules db))) + 1"
    by blast
  then have "distinct (map ID (tw_schedules ?db')) \<and> (\<forall>c. dense c (tw_schedules ?db'))"
  proof cases
    case same
    then show ?thesis using ids dense by simp
  next
    case new
    have "distinct (map ID (tw_schedules db @ [n]))"
      using ids next_id_fresh[of "tw_schedules db"] new(2) by simp
    moreover have "dense c (tw_schedules db @ [n])" for c
      by (rule dense_after_create[OF dense new(3,4)])
    ultimately show ?thesis unfolding new(1) by blast
  qed
  with h' show ?thesis by simp
qed

lemma perform_Delete_invariant:
  assumes healthy: "calls_left db = None"
    and ids: "distinct (map ID (tw_schedules db))"
    and dense: "\<And>c. dense c (tw_schedules db)"
    and ok: "in_range (Delete now scheduleId uid) db"
  shows "calls_left (perform Parse (Delete now scheduleId uid) db) = None
    \<and> distinct (map ID (tw_schedules (perform Parse (Delete now scheduleId uid) db)))
    \<and> (\<forall>c. dense c (tw_schedules (perform Parse (Delete now scheduleId uid) db)))"
proof (cases uid)
  case None
  then show ?thesis using healthy ids dense by (simp add: DeleteSchedule_def)
next
  case (Some u)
  show ?thesis
  proof (cases "First_by_id scheduleId (tw_schedules db)")
    case None
    then show ?thesis using Some healthy ids dense by (simp add: DeleteSchedule_def)
  next
    case found: (Some s)
    from ok found have active: "\<not> IsDeleted s" by simp
    let ?g = "\<lambda>r. if ID r = scheduleId
                    then r\<lparr>IsDeleted := True, UpdatedAt := Some now, DeletedAt := Some now\<rparr>
                    else if BoardColumnId r = BoardColumnId s \<and> Position s < Position r
                            \<and> \<not> IsDeleted r
                    then r\<lparr>Position := Position r - 1\<rparr>
                    else r"
    have rows: "tw_schedules (perform Parse (Delete now scheduleId uid) db) = map ?g (tw_schedules db)"
      and h': "calls_left (perform Parse (Delete now scheduleId uid) db) = None"
      unfolding Some perform.simps DeleteSchedule_rows[OF healthy ids found] using healthy by simp_all
    have "map ID (map ?g (tw_schedules db)) = map ID (tw_schedules db)"
      by (rule map_ID_same) simp
    then have "distinct (map ID (map ?g (tw_schedules db)))" using ids by (simp only:)
    moreover have "dense c (map ?g (tw_schedules db))" for c
      by (rule dense_after_delete[OF ids found active dense])
    ultimately show ?thesis unfolding rows using h' by blast
  qed
qed

lemma perform_Move_invariant:
  assumes healthy: "calls_left db = None"
    and ids: "distinct (map ID (tw_schedules db))"
    and dense: "\<And>c. dense c (tw_schedules db)"
    and ok: "in_range (Move now body scheduleId uid) db"
  shows "calls_left (perform Parse (Move now body scheduleId uid) db) = None
    \<and> distinct (map ID (tw_schedules (perform Parse (Move now body scheduleId uid) db)))
    \<and> (\<forall>c. dense c (tw_schedules (perform Parse (Move now body scheduleId uid) db)))"
proof (cases body)
  case None
  then show ?thesis using healthy ids dense by (simp add: UpdateSchedulePosition_def)
next
  case body: (Some dto)
  show ?thesis
  proof (cases uid)
    case None
    then show ?thesis using body healthy ids dense by (simp add: UpdateSchedulePosition_def)
  next
    case uid: (Some u)
    show ?thesis
    proof (cases "First_by_id scheduleId (tw_schedules db)")
      case None
      then show ?thesis using body uid healthy ids dense by (simp add: UpdateSchedulePosition_def)
    next
      case found: (Some s)
      from found have s_in: "s \<in> set (tw_schedules db)" and s_id: "ID s = scheduleId"
        by (auto dest: First_by_id_Some)
      have is_s: "ID r = scheduleId \<longleftrightarrow> r = s" if "r \<in> set (tw_schedules db)" for r
        using same_ID_same_row[OF ids that s_in] s_id by auto
      have finish: ?thesis
        if rows: "tw_schedules (snd (UpdateSchedulePosition now (Some dto) scheduleId (Some u) db))
                    = map g (tw_schedules db)"
          and h': "calls_left (snd (UpdateSchedulePosition now (Some dto) scheduleId (Some u) db)) = None"
          and g_id: "\<And>x. ID (g x) = ID x"
          and d: "\<And>c. dense c (map g (tw_schedules db))" for g
      proof -
        have "map ID (map g (tw_schedules db)) = map ID (tw_schedules db)"
          by (rule map_ID_same) (rule g_id)
        then have "distinct (map ID (map g (tw_schedules db)))" using ids by (simp only:)
        then show ?thesis unfolding body uid perform.simps rows using h' d by blast
      qed
      show ?thesis
      proof (cases "mvBoardColumnID dto")
        case None
        have block: "move_block u dto s db = (Inr (s, []), db\<lparr>tw_schedules := map (\<lambda>x. x) (tw_schedules db)\<rparr>)"
          using None by (simp add: move_block_def)
        note r = UpdateSchedulePosition_after_block[OF healthy ids found block, of now]
        let ?g = "\<lambda>r. if ID r = scheduleId then s\<lparr>UpdatedAt := Some now\<rparr> else r"
        show ?thesis
        proof (rule finish[of ?g])
          show "tw_schedules (snd (UpdateSchedulePosition now (Some dto) scheduleId (Some u) db))
                    = map ?g (tw_schedules db)"
            by (subst r) simp_all
          show "calls_left (snd (UpdateSchedulePosition now (Some dto) scheduleId (Some u) db)) = None"
            using healthy by (subst r) simp_all
          show "ID (?g x) = ID x" for x using s_id by simp
          show "dense c (map ?g (tw_schedules db))" for c
          proof (rule dense_unchanged[OF ids _ _ _ dense])
            show "ID (?g x) = ID x" for x using s_id by simp
            fix x assume x: "x \<in> set (tw_schedules db)"
            show "(BoardColumnId (?g x) = c \<and> \<not> IsDeleted (?g x))
                = (BoardColumnId x = c \<and> \<not> IsDeleted x)"
              using is_s[OF x] by auto
            show "Position (?g x) = Position x" using is_s[OF x] by auto
          qed
        qed
      next
        case col: (Some col)
        from ok found body col obtain pos where pos: "mvPosition dto = Some pos"
          and active: "\<not> IsDeleted s" and lo: "1 \<le> pos"
          and hi: "col \<noteq> BoardColumnId s
                   \<or> pos \<le> int (length (active_in col (tw_schedules db)))"
          by (auto split: option.splits)
        show ?thesis
        proof (cases "col = BoardColumnId s")
          case True
          note r = UpdateSchedulePosition_within_rows[OF healthy ids found col[unfolded True] pos,
              of now u]
          let ?g = "\<lambda>r. if ID r = scheduleId then s\<lparr>Position := pos, UpdatedAt := Some now\<rparr>
                    else if BoardColumnId r = BoardColumnId s \<and> \<not> IsDeleted r
                      \<and> pos \<le> Position r \<and> Position r < Position s
                    then r\<lparr>Position := Position r + 1\<rparr>
                    else if BoardColumnId r = BoardColumnId s \<and> \<not> IsDeleted r
                      \<and> Position s < Position r \<and> Position r \<le> pos
                    then r\<lparr>Position := Position r - 1\<rparr>
                    else r"
          from hi True have hi': "pos \<le> int (length (active_in (BoardColumnId s) (tw_schedules db)))"
            by simp
          show ?thesis
          proof (rule finish[of ?g])
            show "tw_schedules (snd (UpdateSchedulePosition now (Some dto) scheduleId (Some u) db))
                    = map ?g (tw_schedules db)"
              unfolding r by simp
            show "calls_left (snd (UpdateSchedulePosition now (Some dto) scheduleId (Some u) db)) = None"
              unfolding r using healthy by simp
            show "ID (?g x) = ID x" for x using s_id by simp
            show "dense c (map ?g (tw_schedules db))" for c
              by (rule dense_after_within[OF ids found active lo hi' dense])
          qed
        next
          case False
          note r = UpdateSchedulePosition_across_rows[OF healthy ids found col False pos refl,
              of now u]
          let ?placed = "if \<exists>r\<in>set (tw_schedules db). BoardColumnId r = col \<and> \<not> IsDeleted r
                              \<and> pos \<le> Position r
                         then pos
                         else coalesce_max (map Position (active_in col (tw_schedules db))) + 1"
          let ?g = "\<lambda>r. if ID r = scheduleId
                    then s\<lparr>Position := ?placed, BoardColumnId := col, UpdatedAt := Some now\<rparr>
                    else if BoardColumnId r = BoardColumnId s \<and> \<not> IsDeleted r
                      \<and> Position s < Position r
                    then r\<lparr>Position := Position r - 1\<rparr>
                    else if BoardColumnId r = col \<and> \<not> IsDeleted r \<and> pos \<le> Position r
                    then r\<lparr>Position := Position r + 1\<rparr>
                    else r"
          show ?thesis
          proof (rule finish[of ?g])
            show "tw_schedules (snd (UpdateSchedulePosition now (Some dto) scheduleId (Some u) db))
                    = map ?g (tw_schedules db)"
              unfolding r by simp
            show "calls_left (snd (UpdateSchedulePosition now (Some dto) scheduleId (Some u) db)) = None"
              unfolding r using healthy by simp
            show "ID (?g x) = ID x" for x using s_id by simp
            show "dense c (map ?g (tw_schedules db))" for c
              by (rule dense_after_across[OF ids found active False lo refl dense dense])
          qed
        qed
      qed
    qed
  qed
qed

lemma perform_keeps_invariant:
  assumes healthy: "calls_left db = None"
    and ids: "distinct (map ID (tw_schedules db))"
    and dense: "\<And>c. dense c (tw_schedules db)"
    and ok: "in_range op db"
  shows "calls_left (perform Parse op db) = None
    \<and> distinct (map ID (tw_schedules (perform Parse op db)))
    \<and> (\<forall>c. dense c (tw_schedules (perform Parse op db)))"
proof (cases op)
  case (Create now now2 body)
  show ?thesis unfolding Create by (rule perform_Create_invariant[OF healthy ids dense])
next
  case (Move now body scheduleId uid)
  show ?thesis
    unfolding Move by (rule perform_Move_invariant[OF healthy ids dense ok[unfolded Move]])
next
  case (Delete now scheduleId uid)
  show ?thesis
    unfolding Delete by (rule perform_Delete_invariant[OF healthy ids dense ok[unfolded Delete]])
qed

lemma dense_three: "dense 1 [task_card 1 1 1, task_card 2 1 2, task_card 3 1 3]"
proof -
  have "{1 .. 3::int} = {1, 2, 3}" by auto
  then show ?thesis by (simp add: dense_def active_in_def task_card_def)
qed


lemma dense_three_all: "dense c [task_card 1 1 1, task_card 2 1 2, task_card 3 1 3]"
proof (cases "c = 1")
  case True
  then show ?thesis using dense_three by simp
next
  case False
  then show ?thesis by (simp add: dense_def active_in_def task_card_def)
qed


section \<open>Claims\<close>



text \<open>
  The handlers accept any requested position. From S1, S2, S3 at positions 1, 2, 3, which
  is a dense column, a move of S1 to position 10 within the column leaves the positions
  10, 1 and 2, which is not.
\<close>

theorem move_out_of_range_breaks_density:
  "dense 1 (tw_schedules (board [task_card 1 1 1, task_card 2 1 2, task_card 3 1 3]))
   \<and> \<not> dense 1 (tw_schedules (perform seconds_Parse
          (Move 500 (Some \<lparr>mvBoardColumnID = Some 1, mvPosition = Some 10\<rparr>) 1 (Some 7))
          (board [task_card 1 1 1, task_card 2 1 2, task_card 3 1 3])))"
proof -
  let ?db = "board [task_card 1 1 1, task_card 2 1 2, task_card 3 1 3]"
  have h: "calls_left ?db = None" by (simp add: board_def)
  have i: "distinct (map ID (tw_schedules ?db))" by (simp add: board_def task_card_def)
  have f: "First_by_id 1 (tw_schedules ?db) = Some (task_card 1 1 1)"
    by (simp add: board_def task_card_def First_by_id_def)
  have c: "mvBoardColumnID \<lparr>mvBoardColumnID = Some 1, mvPosition = Some 10\<rparr>
      = Some (BoardColumnId (task_card 1 1 1))" by (simp add: task_card_def)
  have p: "mvPosition \<lparr>mvBoardColumnID = Some 1, mvPosition = Some 10\<rparr> = Some 10" by simp
  have before: "dense 1 (tw_schedules ?db)" using dense_three by (simp add: board_def)
  have after: "map Position (active_in 1 (tw_schedules (perform seconds_Parse
          (Move 500 (Some \<lparr>mvBoardColumnID = Some 1, mvPosition = Some 10\<rparr>) 1 (Some 7)) ?db)))
      = [10, 1, 2]"
    unfolding perform.simps UpdateSchedulePosition_within_rows[OF h i f c p, of 500 7]
    by (simp add: board_def task_card_def active_in_def)
  have "\<not> dense 1 (tw_schedules (perform seconds_Parse
          (Move 500 (Some \<lparr>mvBoardColumnID = Some 1, mvPosition = Some 10\<rparr>) 1 (Some 7)) ?db))"
  proof
    assume "dense 1 (tw_schedules (perform seconds_Parse
          (Move 500 (Some \<lparr>mvBoardColumnID = Some 1, mvPosition = Some 10\<rparr>) 1 (Some 7)) ?db))"
    then have "set [10, 1, 2 :: int] = {1 .. int (length [10, 1, 2 :: int])}"
      unfolding dense_def after[symmetric] by simp
    then have "{10, 1, 2 :: int} = {1 .. 3}" by simp
    moreover have "(10::int) \<in> {10, 1, 2}" by simp
    ultimately have "(10::int) \<in> {1 .. 3}" by (simp only:)
    then show False by simp
  qed
  with before show ?thesis by blast
qed

text \<open>
  C1, as the code has it. Start from a store that does not fail, whose rows have different
  ids and all of whose columns are dense, and run any finite sequence of Create, Move and
  Delete requests in which every request is \<open>in_range\<close> for the store it meets: a Move or
  Delete of a schedule that is found addresses an active schedule, and a Move that names a
  column asks for a position that is at least 1 and, within the schedule's own column, at
  most the number of active schedules of the column. Then after each request, in every
  column, the positions of the active schedules are pairwise different and are exactly the
  numbers from 1 to the number of active schedules of the column.
\<close>

theorem dense_ordering_preserved:
  assumes healthy: "calls_left db = None"
    and ids: "distinct (map ID (tw_schedules db))"
    and dense: "\<forall>c. dense c (tw_schedules db)"
    and ok: "all_in_range Parse ops db"
  shows "\<forall>db'\<in>set (states_after Parse ops db). \<forall>c.
           distinct (map Position (active_in c (tw_schedules db')))
         \<and> set (map Position (active_in c (tw_schedules db')))
             = {1 .. int (length (active_in c (tw_schedules db')))}"
  using assms
proof (induction ops arbitrary: db)
  case Nil
  then show ?case by simp
next
  case (Cons op ops)
  let ?db1 = "perform Parse op db"
  from Cons.prems(4) have ok1: "in_range op db" and rest: "all_in_range Parse ops ?db1"
    by simp_all
  from Cons.prems(3) have d: "dense c (tw_schedules db)" for c by blast
  from perform_keeps_invariant[OF Cons.prems(1,2) d ok1, of Parse]
  have h1: "calls_left ?db1 = None" and i1: "distinct (map ID (tw_schedules ?db1))"
    and d1: "\<forall>c. dense c (tw_schedules ?db1)"
    by blast+
  from Cons.IH[OF h1 i1 d1 rest] d1
  show ?case by (simp add: dense_def)
qed


theorem dense_ordering_preserved_witness:
  "calls_left (board [task_card 1 1 1, task_card 2 1 2, task_card 3 1 3]) = None
   \<and> distinct (map ID (tw_schedules (board [task_card 1 1 1, task_card 2 1 2, task_card 3 1 3])))
   \<and> (\<forall>c. dense c (tw_schedules (board [task_card 1 1 1, task_card 2 1 2, task_card 3 1 3])))
   \<and> all_in_range seconds_Parse
        [Move 500 (Some \<lparr>mvBoardColumnID = Some 1, mvPosition = Some 1\<rparr>) 3 (Some 7),
         Delete 600 1 (Some 7),
         Create 700 701 (Some \<lparr>crWorkspaceID = Some 1, crBoardColumnID = Some 1,
           crTitle = Some ''new'', crDescription = Some [], crWorkspaceUserID = Some 7,
           crStartTime = None, crEndTime = None\<rparr>)]
        (board [task_card 1 1 1, task_card 2 1 2, task_card 3 1 3])
   \<and> distinct (map Position (active_in 1 (tw_schedules
        (perform seconds_Parse
          (Create 700 701 (Some \<lparr>crWorkspaceID = Some 1, crBoardColumnID = Some 1,
             crTitle = Some ''new'', crDescription = Some [], crWorkspaceUserID = Some 7,
             crStartTime = None, crEndTime = None\<rparr>))
          (perform seconds_Parse (Delete 600 1 (Some 7))
            (perform seconds_Parse
              (Move 500 (Some \<lparr>mvBoardColumnID = Some 1, mvPosition = Some 1\<rparr>) 3 (Some 7))
              (board [task_card 1 1 1, task_card 2 1 2, task_card 3 1 3])))))))
   \<and> set (map Position (active_in 1 (tw_schedules
        (perform seconds_Parse
          (Create 700 701 (Some \<lparr>crWorkspaceID = Some 1, crBoardColumnID = Some 1,
             crTitle = Some ''new'', crDescription = Some [], crWorkspaceUserID = Some 7,
             crStartTime = None, crEndTime = None\<rparr>))
          (perform seconds_Parse (Delete 600 1 (Some 7))
            (perform seconds_Parse
              (Move 500 (Some \<lparr>mvBoardColumnID = Some 1, mvPosition = Some 1\<rparr>) 3 (Some 7))
              (board [task_card 1 1 1, task_card 2 1 2, task_card 3 1 3])))))))
       = {1 .. int (length (active_in 1 (tw_schedules
        (perform seconds_Parse
          (Create 700 701 (Some \<lparr>crWorkspaceID = Some 1, crBoardColumnID = Some 1,
             crTitle = Some ''new'', crDescription = Some [], crWorkspaceUserID = Some 7,
             crStartTime = None, crEndTime = None\<rparr>))
          (perform seconds_Parse (Delete 600 1 (Some 7))
            (perform seconds_Parse
              (Move 500 (Some \<lparr>mvBoardColumnID = Some 1, mvPosition = Some 1\<rparr>) 3 (Some 7))
              (board [task_card 1 1 1, task_card 2 1 2, task_card 3 1 3])))))))}"
proof -
  let ?db = "board [task_card 1 1 1, task_card 2 1 2, task_card 3 1 3]"
  let ?mv = "Move 500 (Some \<lparr>mvBoardColumnID = Some 1, mvPosition = Some 1\<rparr>) 3 (Some 7)"
  let ?del = "Delete 600 1 (Some 7)"
  let ?cr = "Create 700 701 (Some \<lparr>crWorkspaceID = Some 1, crBoardColumnID = Some 1,
           crTitle = Some ''new'', crDescription = Some [], crWorkspaceUserID = Some 7,
           crStartTime = None, crEndTime = None\<rparr>)"
  let ?db3 = "perform seconds_Parse ?cr (perform seconds_Parse ?del (perform seconds_Parse ?mv ?db))"
  have h: "calls_left ?db = None" by (simp add: board_def)
  have i: "distinct (map ID (tw_schedules ?db))" by (simp add: board_def task_card_def)
  have d: "\<forall>c. dense c (tw_schedules ?db)" using dense_three_all by (simp add: board_def)
  have f: "First_by_id 3 (tw_schedules ?db) = Some (task_card 3 1 3)"
    by (simp add: board_def task_card_def First_by_id_def)
  have c: "mvBoardColumnID \<lparr>mvBoardColumnID = Some 1, mvPosition = Some 1\<rparr>
      = Some (BoardColumnId (task_card 3 1 3))" by (simp add: task_card_def)
  have p: "mvPosition \<lparr>mvBoardColumnID = Some 1, mvPosition = Some 1\<rparr> = Some 1" by simp
  have r1: "in_range ?mv ?db"
    using f by (simp add: board_def task_card_def active_in_def)
  have db1: "tw_schedules (perform seconds_Parse ?mv ?db)
      = [task_card 1 1 2, task_card 2 1 3, (task_card 3 1 1)\<lparr>UpdatedAt := Some 500\<rparr>]"
    unfolding perform.simps UpdateSchedulePosition_within_rows[OF h i f c p, of 500 7]
    by (simp add: board_def task_card_def)
  have r2: "in_range ?del (perform seconds_Parse ?mv ?db)"
    unfolding in_range.simps db1 by (simp add: First_by_id_def task_card_def)
  have ok: "all_in_range seconds_Parse [?mv, ?del, ?cr] ?db"
    using r1 r2 by simp
  have mem: "?db3 \<in> set (states_after seconds_Parse [?mv, ?del, ?cr] ?db)" by simp
  from dense_ordering_preserved[OF h i d ok] mem
  have "distinct (map Position (active_in 1 (tw_schedules ?db3)))
         \<and> set (map Position (active_in 1 (tw_schedules ?db3)))
             = {1 .. int (length (active_in 1 (tw_schedules ?db3)))}"
    by blast
  with h i d ok show ?thesis by blast
qed






text \<open>
  The handler has no check of the requested position. In a column of three active
  schedules, a move of the first one to position 10 within the column is answered with the
  schedule at position 10, and the table holds the positions 10, 1 and 2.
\<close>

theorem move_out_of_range_succeeds:
  "length (active_in 1 (tw_schedules (board [task_card 1 1 1, task_card 2 1 2, task_card 3 1 3]))) = 3
   \<and> fst (UpdateSchedulePosition 500
          (Some \<lparr>mvBoardColumnID = Some 1, mvPosition = Some 10\<rparr>) 1 (Some 7)
          (board [task_card 1 1 1, task_card 2 1 2, task_card 3 1 3]))
       = Inr ((task_card 1 1 10)\<lparr>UpdatedAt := Some 500\<rparr>)
   \<and> tw_schedules (snd (UpdateSchedulePosition 500
          (Some \<lparr>mvBoardColumnID = Some 1, mvPosition = Some 10\<rparr>) 1 (Some 7)
          (board [task_card 1 1 1, task_card 2 1 2, task_card 3 1 3])))
       = [(task_card 1 1 10)\<lparr>UpdatedAt := Some 500\<rparr>, task_card 2 1 1, task_card 3 1 2]"
proof -
  let ?db = "board [task_card 1 1 1, task_card 2 1 2, task_card 3 1 3]"
  have h: "calls_left ?db = None" by (simp add: board_def)
  have i: "distinct (map ID (tw_schedules ?db))" by (simp add: board_def task_card_def)
  have f: "First_by_id 1 (tw_schedules ?db) = Some (task_card 1 1 1)"
    by (simp add: board_def task_card_def First_by_id_def)
  have c: "mvBoardColumnID \<lparr>mvBoardColumnID = Some 1, mvPosition = Some 10\<rparr>
      = Some (BoardColumnId (task_card 1 1 1))" by (simp add: task_card_def)
  have p: "mvPosition \<lparr>mvBoardColumnID = Some 1, mvPosition = Some 10\<rparr> = Some 10" by simp
  have n: "length (active_in 1 (tw_schedules ?db)) = 3"
    by (simp add: board_def task_card_def active_in_def)
  show ?thesis
    unfolding UpdateSchedulePosition_within_rows[OF h i f c p, of 500 7]
    using n by (simp add: board_def task_card_def)
qed

text \<open>
  C5, as the code has it. A move within the schedule's own column whose requested position
  lies outside 1..N, N being the number of active schedules of the column, is not rejected:
  on a store that does not fail, for a schedule whose start, end and creation times are set,
  the handler answers with the schedule at the requested position, and the row read again
  from the table has the requested position.
\<close>

theorem move_within_column_unchecked:
  assumes healthy: "calls_left db = None"
    and ids: "distinct (map ID (tw_schedules db))"
    and found: "First_by_id scheduleId (tw_schedules db) = Some s"
    and col: "mvBoardColumnID dto = Some (BoardColumnId s)"
    and pos: "mvPosition dto = Some newPosition"
    and out: "newPosition < 1
              \<or> int (length (active_in (BoardColumnId s) (tw_schedules db))) < newPosition"
    and times: "StartTime s \<noteq> None" "EndTime s \<noteq> None" "CreatedAt s \<noteq> None"
  shows "fst (UpdateSchedulePosition now (Some dto) scheduleId (Some uid) db)
           = Inr (s\<lparr>Position := newPosition, UpdatedAt := Some now\<rparr>)
    \<and> First_by_id scheduleId
         (tw_schedules (snd (UpdateSchedulePosition now (Some dto) scheduleId (Some uid) db)))
           = Some (s\<lparr>Position := newPosition, UpdatedAt := Some now\<rparr>)"
proof -
  from found have s_id: "ID s = scheduleId" by (auto dest: First_by_id_Some)
  let ?f = "\<lambda>r. if BoardColumnId r = BoardColumnId s \<and> \<not> IsDeleted r
                      \<and> newPosition \<le> Position r \<and> Position r < Position s
                    then r\<lparr>Position := Position r + 1\<rparr>
                    else if BoardColumnId r = BoardColumnId s \<and> \<not> IsDeleted r
                      \<and> Position s < Position r \<and> Position r \<le> newPosition
                    then r\<lparr>Position := Position r - 1\<rparr>
                    else r"
  have reread: "First_by_id scheduleId
      (map (\<lambda>r. if ID r = scheduleId then s\<lparr>Position := newPosition, UpdatedAt := Some now\<rparr>
                  else ?f r) (tw_schedules db))
      = Some (s\<lparr>Position := newPosition, UpdatedAt := Some now\<rparr>)"
    by (rule First_by_id_moved[OF found]) (simp_all add: s_id)
  show ?thesis
    unfolding UpdateSchedulePosition_within_rows[OF healthy ids found col pos]
    using times reread by simp
qed

theorem move_within_column_unchecked_witness:
  "calls_left (board [task_card 1 1 1, task_card 2 1 2, task_card 3 1 3]) = None
   \<and> distinct (map ID (tw_schedules (board [task_card 1 1 1, task_card 2 1 2, task_card 3 1 3])))
   \<and> First_by_id 1 (tw_schedules (board [task_card 1 1 1, task_card 2 1 2, task_card 3 1 3])) = Some (task_card 1 1 1)
   \<and> int (length (active_in (BoardColumnId (task_card 1 1 1))
         (tw_schedules (board [task_card 1 1 1, task_card 2 1 2, task_card 3 1 3])))) < 10
   \<and> StartTime (task_card 1 1 1) \<noteq> None \<and> EndTime (task_card 1 1 1) \<noteq> None
   \<and> CreatedAt (task_card 1 1 1) \<noteq> None
   \<and> fst (UpdateSchedulePosition 500
          (Some \<lparr>mvBoardColumnID = Some 1, mvPosition = Some 10\<rparr>) 1 (Some 7)
          (board [task_card 1 1 1, task_card 2 1 2, task_card 3 1 3]))
       = Inr ((task_card 1 1 10)\<lparr>UpdatedAt := Some 500\<rparr>)
   \<and> First_by_id 1 (tw_schedules (snd (UpdateSchedulePosition 500
          (Some \<lparr>mvBoardColumnID = Some 1, mvPosition = Some 10\<rparr>) 1 (Some 7)
          (board [task_card 1 1 1, task_card 2 1 2, task_card 3 1 3]))))
       = Some ((task_card 1 1 10)\<lparr>UpdatedAt := Some 500\<rparr>)"
proof -
  let ?db = "board [task_card 1 1 1, task_card 2 1 2, task_card 3 1 3]"
  have h: "calls_left ?db = None" by (simp add: board_def)
  have i: "distinct (map ID (tw_schedules ?db))" by (simp add: board_def task_card_def)
  have f: "First_by_id 1 (tw_schedules ?db) = Some (task_card 1 1 1)"
    by (simp add: board_def task_card_def First_by_id_def)
  have c: "mvBoardColumnID \<lparr>mvBoardColumnID = Some 1, mvPosition = Some 10\<rparr>
      = Some (BoardColumnId (task_card 1 1 1))" by (simp add: task_card_def)
  have p: "mvPosition \<lparr>mvBoardColumnID = Some 1, mvPosition = Some 10\<rparr> = Some 10" by simp
  have n: "int (length (active_in (BoardColumnId (task_card 1 1 1)) (tw_schedules ?db))) < 10"
    by (simp add: board_def task_card_def active_in_def)
  have t: "StartTime (task_card 1 1 1) \<noteq> None" "EndTime (task_card 1 1 1) \<noteq> None"
    "CreatedAt (task_card 1 1 1) \<noteq> None" by (simp_all add: task_card_def)
  have o: "(10::int) < 1 \<or> int (length (active_in (BoardColumnId (task_card 1 1 1)) (tw_schedules ?db))) < 10"
    using n by simp
  have same: "(task_card 1 1 1)\<lparr>Position := 10, UpdatedAt := Some 500\<rparr>
      = (task_card 1 1 10)\<lparr>UpdatedAt := Some 500\<rparr>" by (simp add: task_card_def)
  from move_within_column_unchecked[OF h i f c p o t, of 500 7] h i f n t
  show ?thesis unfolding same by blast
qed






text \<open>
  \<open>UpdateSchedule\<close> compares a supplied \<open>end_time\<close> string with the printed old time
  before it tries to parse it, and logs the pair when they differ. An update that supplies
  only an \<open>end_time\<close> that does not parse leaves the schedule's end time as it was, and
  still writes one log row for \<open>end_time\<close> (the old time printed by the instance
  \<open>seconds_String\<close>).
\<close>

theorem update_logs_unchanged_end_time:
  "tw_schedules (snd (UpdateSchedule seconds_Parse seconds_String 500
          (Some (no_patch\<lparr>upEndTime := Some ''garbage''\<rparr>)) 1 (Some 7) (board [task_card 1 1 1])))
       = [(task_card 1 1 1)\<lparr>UpdatedAt := Some 500\<rparr>]
   \<and> tw_schedule_logs (snd (UpdateSchedule seconds_Parse seconds_String 500
          (Some (no_patch\<lparr>upEndTime := Some ''garbage''\<rparr>)) 1 (Some 7) (board [task_card 1 1 1])))
       = [\<lparr>ScheduleId = 1, WorkspaceUserId = 7, Action = ''update schedule'',
           FieldChanged = ''end_time'', OldValue = ''3700'', NewValue = ''garbage''\<rparr>]"
proof -
  let ?db = "board [task_card 1 1 1]"
  have h: "calls_left ?db = None" by (simp add: board_def)
  have i: "distinct (map ID (tw_schedules ?db))" by (simp add: board_def task_card_def)
  have f: "First_by_id 1 (tw_schedules ?db) = Some (task_card 1 1 1)"
    by (simp add: board_def task_card_def First_by_id_def)
  have g: "seconds_Parse ''garbage'' = None" by (simp add: seconds_Parse_def)
  have p: "patched seconds_Parse 7 (task_card 1 1 1) (no_patch\<lparr>upEndTime := Some ''garbage''\<rparr>)
      = task_card 1 1 1"
    by (simp add: patched_def no_patch_def task_card_def supplied_time_def g)
  have l: "expected_logs seconds_String 7 (task_card 1 1 1) (no_patch\<lparr>upEndTime := Some ''garbage''\<rparr>)
      = [\<lparr>ScheduleId = 1, WorkspaceUserId = 7, Action = ''update schedule'',
           FieldChanged = ''end_time'', OldValue = ''3700'', NewValue = ''garbage''\<rparr>]"
    by (simp add: expected_logs_def no_patch_def task_card_def change_def seconds_String_def digits_3700)
  show ?thesis
    unfolding UpdateSchedule_rows[OF h i f] p l
    by (simp add: board_def task_card_def)
qed

text \<open>
  C7, as the code has it. An update of a schedule that exists, on a store that does not
  fail and whose rows have different ids, appends to the log exactly \<open>expected_logs\<close>:
  for each of the twelve fields of the patch, in the order of the handler, one row when the
  field is supplied and the supplied string (for \<open>start_time\<close> and \<open>end_time\<close> the string
  as sent, parsed or not; for \<open>all_day\<close> the printed boolean) differs from the printed value
  the schedule had, carrying the field's name, the old printed value and the supplied
  string; and no row for a field that is not supplied or is supplied with the same string.
  An update that supplies only a title and a status, both different from the old ones,
  appends exactly the two rows for \<open>title\<close> and \<open>status\<close>.
\<close>

theorem update_change_log:
  assumes healthy: "calls_left db = None"
    and ids: "distinct (map ID (tw_schedules db))"
    and found: "First_by_id scheduleId (tw_schedules db) = Some s"
  shows "tw_schedule_logs (snd (UpdateSchedule Parse String now (Some dto) scheduleId (Some uid) db))
      = tw_schedule_logs db @ expected_logs String uid s dto
    \<and> (dto = no_patch\<lparr>upTitle := Some title, upStatus := Some status\<rparr>
         \<and> title \<noteq> Title s \<and> status \<noteq> Status s
       \<longrightarrow> tw_schedule_logs (snd (UpdateSchedule Parse String now (Some dto) scheduleId (Some uid) db))
           = tw_schedule_logs db @
             [\<lparr>ScheduleId = scheduleId, WorkspaceUserId = uid, Action = ''update schedule'',
               FieldChanged = ''title'', OldValue = Title s, NewValue = title\<rparr>,
              \<lparr>ScheduleId = scheduleId, WorkspaceUserId = uid, Action = ''update schedule'',
               FieldChanged = ''status'', OldValue = Status s, NewValue = status\<rparr>])"
proof -
  from found have s_id: "ID s = scheduleId" by (auto dest: First_by_id_Some)
  have logs: "tw_schedule_logs (snd (UpdateSchedule Parse String now (Some dto) scheduleId (Some uid) db))
      = tw_schedule_logs db @ expected_logs String uid s dto"
    unfolding UpdateSchedule_rows[OF healthy ids found] by simp
  have two: "expected_logs String uid s (no_patch\<lparr>upTitle := Some title, upStatus := Some status\<rparr>)
      = [\<lparr>ScheduleId = scheduleId, WorkspaceUserId = uid, Action = ''update schedule'',
               FieldChanged = ''title'', OldValue = Title s, NewValue = title\<rparr>,
              \<lparr>ScheduleId = scheduleId, WorkspaceUserId = uid, Action = ''update schedule'',
               FieldChanged = ''status'', OldValue = Status s, NewValue = status\<rparr>]"
    if "title \<noteq> Title s" "status \<noteq> Status s"
    using that by (simp add: expected_logs_def no_patch_def change_def s_id)
  show ?thesis
    unfolding logs using two by blast
qed

theorem update_change_log_witness:
  "calls_left (board [task_card 1 1 1]) = None
   \<and> distinct (map ID (tw_schedules (board [task_card 1 1 1])))
   \<and> First_by_id 1 (tw_schedules (board [task_card 1 1 1])) = Some (task_card 1 1 1)
   \<and> ''renamed'' \<noteq> Title (task_card 1 1 1) \<and> ''done'' \<noteq> Status (task_card 1 1 1)
   \<and> tw_schedule_logs (snd (UpdateSchedule seconds_Parse seconds_String 500
          (Some (no_patch\<lparr>upTitle := Some ''renamed'', upStatus := Some ''done''\<rparr>)) 1 (Some 7)
          (board [task_card 1 1 1])))
       = [\<lparr>ScheduleId = 1, WorkspaceUserId = 7, Action = ''update schedule'',
           FieldChanged = ''title'', OldValue = ''task'', NewValue = ''renamed''\<rparr>,
          \<lparr>ScheduleId = 1, WorkspaceUserId = 7, Action = ''update schedule'',
           FieldChanged = ''status'', OldValue = ''not yet'', NewValue = ''done''\<rparr>]"
proof -
  let ?db = "board [task_card 1 1 1]"
  have h: "calls_left ?db = None" by (simp add: board_def)
  have i: "distinct (map ID (tw_schedules ?db))" by (simp add: board_def task_card_def)
  have f: "First_by_id 1 (tw_schedules ?db) = Some (task_card 1 1 1)"
    by (simp add: board_def task_card_def First_by_id_def)
  have t: "''renamed'' \<noteq> Title (task_card 1 1 1)" "''done'' \<noteq> Status (task_card 1 1 1)"
    by (simp_all add: task_card_def)
  from update_change_log[OF h i f, where Parse = seconds_Parse and String = seconds_String
      and now = 500 and uid = 7 and title = "''renamed''" and status = "''done''"
      and dto = "no_patch\<lparr>upTitle := Some ''renamed'', upStatus := Some ''done''\<rparr>",
      THEN conjunct2] t
  have "tw_schedule_logs (snd (UpdateSchedule seconds_Parse seconds_String 500
          (Some (no_patch\<lparr>upTitle := Some ''renamed'', upStatus := Some ''done''\<rparr>)) 1 (Some 7) ?db))
       = tw_schedule_logs ?db @
          [\<lparr>ScheduleId = 1, WorkspaceUserId = 7, Action = ''update schedule'',
           FieldChanged = ''title'', OldValue = Title (task_card 1 1 1), NewValue = ''renamed''\<rparr>,
          \<lparr>ScheduleId = 1, WorkspaceUserId = 7, Action = ''update schedule'',
           FieldChanged = ''status'', OldValue = Status (task_card 1 1 1), NewValue = ''done''\<rparr>]"
    by blast
  then have "tw_schedule_logs (snd (UpdateSchedule seconds_Parse seconds_String 500
          (Some (no_patch\<lparr>upTitle := Some ''renamed'', upStatus := Some ''done''\<rparr>)) 1 (Some 7) ?db))
       = [\<lparr>ScheduleId = 1, WorkspaceUserId = 7, Action = ''update schedule'',
           FieldChanged = ''title'', OldValue = ''task'', NewValue = ''renamed''\<rparr>,
          \<lparr>ScheduleId = 1, WorkspaceUserId = 7, Action = ''update schedule'',
           FieldChanged = ''status'', OldValue = ''not yet'', NewValue = ''done''\<rparr>]"
    by (simp add: board_def task_card_def)
  with h i f t show ?thesis by blast
qed

text \<open>
  \<open>UpdateSchedule\<close> assigns the acting workspace user to \<open>CreatedBy\<close> before it saves:
  an update by user 9 that supplies a title only, on a schedule created by user 7, stores
  9 as \<open>created_by\<close>.
\<close>

theorem update_overwrites_created_by:
  "CreatedBy (task_card 1 1 1) = 7
   \<and> upTitle (no_patch\<lparr>upTitle := Some ''renamed''\<rparr>) = Some ''renamed''
   \<and> fst (UpdateSchedule seconds_Parse seconds_String 500
          (Some (no_patch\<lparr>upTitle := Some ''renamed''\<rparr>)) 1 (Some 9) (board [task_card 1 1 1]))
       = Inr ((task_card 1 1 1)\<lparr>Title := ''renamed'', CreatedBy := 9, UpdatedAt := Some 500\<rparr>)
   \<and> tw_schedules (snd (UpdateSchedule seconds_Parse seconds_String 500
          (Some (no_patch\<lparr>upTitle := Some ''renamed''\<rparr>)) 1 (Some 9) (board [task_card 1 1 1])))
       = [(task_card 1 1 1)\<lparr>Title := ''renamed'', CreatedBy := 9, UpdatedAt := Some 500\<rparr>]"
proof -
  let ?db = "board [task_card 1 1 1]"
  have h: "calls_left ?db = None" by (simp add: board_def)
  have i: "distinct (map ID (tw_schedules ?db))" by (simp add: board_def task_card_def)
  have f: "First_by_id 1 (tw_schedules ?db) = Some (task_card 1 1 1)"
    by (simp add: board_def task_card_def First_by_id_def)
  have p: "patched seconds_Parse 9 (task_card 1 1 1) (no_patch\<lparr>upTitle := Some ''renamed''\<rparr>)
      = (task_card 1 1 1)\<lparr>Title := ''renamed'', CreatedBy := 9\<rparr>"
    by (simp add: patched_def no_patch_def task_card_def supplied_time_def)
  show ?thesis
    unfolding UpdateSchedule_rows[OF h i f] p
    by (simp add: board_def task_card_def no_patch_def)
qed

text \<open>
  C8, as the code has it. An update of a schedule that exists, on a store that does not
  fail and whose rows have different ids, changes that row only. Reading the row again:
  its id, workspace, column, position, deletion flag and time, and creation time are as
  before; every field of the patch that is not supplied is as before; \<open>updated_at\<close> is the
  time of the call; and \<open>created_by\<close> is the acting workspace user, whoever created the
  schedule.
\<close>

theorem update_frame:
  assumes healthy: "calls_left db = None"
    and ids: "distinct (map ID (tw_schedules db))"
    and found: "First_by_id scheduleId (tw_schedules db) = Some s"
    and reread: "First_by_id scheduleId
            (tw_schedules (snd (UpdateSchedule Parse String now (Some dto) scheduleId (Some uid) db)))
            = Some s'"
  shows "tw_schedules (snd (UpdateSchedule Parse String now (Some dto) scheduleId (Some uid) db))
        = map (\<lambda>r. if ID r = scheduleId then s' else r) (tw_schedules db)
    \<and> ID s' = ID s \<and> WorkspaceId s' = WorkspaceId s \<and> BoardColumnId s' = BoardColumnId s
    \<and> Position s' = Position s \<and> IsDeleted s' = IsDeleted s \<and> DeletedAt s' = DeletedAt s
    \<and> CreatedAt s' = CreatedAt s
    \<and> CreatedBy s' = uid \<and> UpdatedAt s' = Some now
    \<and> (upTitle dto = None \<longrightarrow> Title s' = Title s)
    \<and> (upDescription dto = None \<longrightarrow> Description s' = Description s)
    \<and> (upStartTime dto = None \<longrightarrow> StartTime s' = StartTime s)
    \<and> (upEndTime dto = None \<longrightarrow> EndTime s' = EndTime s)
    \<and> (upLocation dto = None \<longrightarrow> Location s' = Location s)
    \<and> (upStatus dto = None \<longrightarrow> Status s' = Status s)
    \<and> (upAllDay dto = None \<longrightarrow> AllDay s' = AllDay s)
    \<and> (upVisibility dto = None \<longrightarrow> Visibility s' = Visibility s)
    \<and> (upExtraData dto = None \<longrightarrow> ExtraData s' = ExtraData s)
    \<and> (upRecurrencePattern dto = None \<longrightarrow> RecurrencePattern s' = RecurrencePattern s)
    \<and> (upPriority dto = None \<longrightarrow> Priority s' = Priority s)
    \<and> (upVideoTranscript dto = None \<longrightarrow> VideoTranscript s' = VideoTranscript s)"
proof -
  let ?p = "(patched Parse uid s dto)\<lparr>UpdatedAt := Some now\<rparr>"
  let ?U = "UpdateSchedule Parse String now (Some dto) scheduleId (Some uid) db"
  from found have s_id: "ID s = scheduleId" by (auto dest: First_by_id_Some)
  have rows: "tw_schedules (snd ?U) = map (\<lambda>r. if ID r = scheduleId then ?p else r) (tw_schedules db)"
    unfolding UpdateSchedule_rows[OF healthy ids found] by simp
  have "First_by_id scheduleId (tw_schedules (snd ?U)) = Some ?p"
    unfolding rows by (rule First_by_id_moved[OF found]) (simp_all add: s_id)
  with reread have s': "s' = ?p" by simp
  have rest: "ID ?p = ID s \<and> WorkspaceId ?p = WorkspaceId s \<and> BoardColumnId ?p = BoardColumnId s
    \<and> Position ?p = Position s \<and> IsDeleted ?p = IsDeleted s \<and> DeletedAt ?p = DeletedAt s
    \<and> CreatedAt ?p = CreatedAt s
    \<and> CreatedBy ?p = uid \<and> UpdatedAt ?p = Some now
    \<and> (upTitle dto = None \<longrightarrow> Title ?p = Title s)
    \<and> (upDescription dto = None \<longrightarrow> Description ?p = Description s)
    \<and> (upStartTime dto = None \<longrightarrow> StartTime ?p = StartTime s)
    \<and> (upEndTime dto = None \<longrightarrow> EndTime ?p = EndTime s)
    \<and> (upLocation dto = None \<longrightarrow> Location ?p = Location s)
    \<and> (upStatus dto = None \<longrightarrow> Status ?p = Status s)
    \<and> (upAllDay dto = None \<longrightarrow> AllDay ?p = AllDay s)
    \<and> (upVisibility dto = None \<longrightarrow> Visibility ?p = Visibility s)
    \<and> (upExtraData dto = None \<longrightarrow> ExtraData ?p = ExtraData s)
    \<and> (upRecurrencePattern dto = None \<longrightarrow> RecurrencePattern ?p = RecurrencePattern s)
    \<and> (upPriority dto = None \<longrightarrow> Priority ?p = Priority s)
    \<and> (upVideoTranscript dto = None \<longrightarrow> VideoTranscript ?p = VideoTranscript s)"
    by (simp add: supplied_time_def)
  show ?thesis
    unfolding s' by (rule conjI[OF rows], rule rest)
qed

theorem update_frame_witness:
  "calls_left (board [task_card 1 1 1, task_card 2 1 2]) = None
   \<and> distinct (map ID (tw_schedules (board [task_card 1 1 1, task_card 2 1 2])))
   \<and> First_by_id 1 (tw_schedules (board [task_card 1 1 1, task_card 2 1 2])) = Some (task_card 1 1 1)
   \<and> First_by_id 1 (tw_schedules (snd (UpdateSchedule seconds_Parse seconds_String 500
          (Some (no_patch\<lparr>upTitle := Some ''renamed''\<rparr>)) 1 (Some 9)
          (board [task_card 1 1 1, task_card 2 1 2]))))
       = Some ((task_card 1 1 1)\<lparr>Title := ''renamed'', CreatedBy := 9, UpdatedAt := Some 500\<rparr>)
   \<and> upStatus (no_patch\<lparr>upTitle := Some ''renamed''\<rparr>) = None
   \<and> tw_schedules (snd (UpdateSchedule seconds_Parse seconds_String 500
          (Some (no_patch\<lparr>upTitle := Some ''renamed''\<rparr>)) 1 (Some 9)
          (board [task_card 1 1 1, task_card 2 1 2])))
       = [(task_card 1 1 1)\<lparr>Title := ''renamed'', CreatedBy := 9, UpdatedAt := Some 500\<rparr>,
          task_card 2 1 2]"
proof -
  let ?db = "board [task_card 1 1 1, task_card 2 1 2]"
  let ?U = "UpdateSchedule seconds_Parse seconds_String 500
          (Some (no_patch\<lparr>upTitle := Some ''renamed''\<rparr>)) 1 (Some 9) ?db"
  let ?s' = "(task_card 1 1 1)\<lparr>Title := ''renamed'', CreatedBy := 9, UpdatedAt := Some 500\<rparr>"
  have h: "calls_left ?db = None" by (simp add: board_def)
  have i: "distinct (map ID (tw_schedules ?db))" by (simp add: board_def task_card_def)
  have f: "First_by_id 1 (tw_schedules ?db) = Some (task_card 1 1 1)"
    by (simp add: board_def task_card_def First_by_id_def)
  have n: "upStatus (no_patch\<lparr>upTitle := Some ''renamed''\<rparr>) = None" by (simp add: no_patch_def)
  have r: "First_by_id 1 (tw_schedules (snd ?U)) = Some ?s'"
    unfolding UpdateSchedule_rows[OF h i f]
    by (simp add: board_def task_card_def no_patch_def patched_def supplied_time_def First_by_id_def)
  have "tw_schedules (snd ?U) = map (\<lambda>r. if ID r = 1 then ?s' else r) (tw_schedules ?db)"
    by (rule update_frame[OF h i f r, THEN conjunct1])
  then have e: "tw_schedules (snd ?U) = [?s', task_card 2 1 2]"
    by (simp add: board_def task_card_def)
  from h i f r n e show ?thesis by blast
qed

text \<open>
  An update that supplies the \<open>start_time\<close> string \<open>garbage\<close>, which does not parse,
  succeeds and leaves the schedule's start time as it was, and writes a log row for
  \<open>start_time\<close> whose new value is \<open>garbage\<close>.
\<close>

theorem update_unparsable_start_time_logged:
  "seconds_Parse ''garbage'' = None
   \<and> fst (UpdateSchedule seconds_Parse seconds_String 500
          (Some (no_patch\<lparr>upStartTime := Some ''garbage''\<rparr>)) 1 (Some 7) (board [task_card 1 1 1]))
       = Inr ((task_card 1 1 1)\<lparr>UpdatedAt := Some 500\<rparr>)
   \<and> map StartTime (tw_schedules (snd (UpdateSchedule seconds_Parse seconds_String 500
          (Some (no_patch\<lparr>upStartTime := Some ''garbage''\<rparr>)) 1 (Some 7) (board [task_card 1 1 1]))))
       = [StartTime (task_card 1 1 1)]
   \<and> map (\<lambda>l. (FieldChanged l, NewValue l))
        (tw_schedule_logs (snd (UpdateSchedule seconds_Parse seconds_String 500
          (Some (no_patch\<lparr>upStartTime := Some ''garbage''\<rparr>)) 1 (Some 7) (board [task_card 1 1 1]))))
       = [(''start_time'', ''garbage'')]"
proof -
  let ?db = "board [task_card 1 1 1]"
  have h: "calls_left ?db = None" by (simp add: board_def)
  have i: "distinct (map ID (tw_schedules ?db))" by (simp add: board_def task_card_def)
  have f: "First_by_id 1 (tw_schedules ?db) = Some (task_card 1 1 1)"
    by (simp add: board_def task_card_def First_by_id_def)
  have g: "seconds_Parse ''garbage'' = None" by (simp add: seconds_Parse_def)
  have d: "digits 100 = ''100''" by (simp add: digits.simps)
  have p: "patched seconds_Parse 7 (task_card 1 1 1) (no_patch\<lparr>upStartTime := Some ''garbage''\<rparr>)
      = task_card 1 1 1"
    by (simp add: patched_def no_patch_def task_card_def supplied_time_def g)
  have l: "expected_logs seconds_String 7 (task_card 1 1 1) (no_patch\<lparr>upStartTime := Some ''garbage''\<rparr>)
      = [\<lparr>ScheduleId = 1, WorkspaceUserId = 7, Action = ''update schedule'',
           FieldChanged = ''start_time'', OldValue = ''100'', NewValue = ''garbage''\<rparr>]"
    by (simp add: expected_logs_def no_patch_def task_card_def change_def seconds_String_def d)
  show ?thesis
    unfolding UpdateSchedule_rows[OF h i f] p l
    using g by (simp add: board_def task_card_def)
qed

text \<open>
  C9, as the code has it. An update of a schedule whose start, end and creation times are
  set, on a store that does not fail and whose rows have different ids, succeeds. When the
  patch supplies a \<open>start_time\<close> (or \<open>end_time\<close>) string that does not parse, the schedule
  answered and stored keeps the start (end) time it had, and the log rows the call appends
  hold for that field exactly one row, from the printed old time to the supplied string,
  unless the supplied string equals the printed old time, in which case they hold none.
\<close>

theorem update_unparsable_time:
  assumes healthy: "calls_left db = None"
    and ids: "distinct (map ID (tw_schedules db))"
    and found: "First_by_id scheduleId (tw_schedules db) = Some s"
    and times: "StartTime s \<noteq> None" "EndTime s \<noteq> None" "CreatedAt s \<noteq> None"
    and result: "UpdateSchedule Parse String now (Some dto) scheduleId (Some uid) db = (res, db')"
  shows "(\<exists>s'. res = Inr s' \<and> First_by_id scheduleId (tw_schedules db') = Some s'
          \<and> (\<forall>str. upStartTime dto = Some str \<and> Parse str = None
                \<longrightarrow> StartTime s' = StartTime s)
          \<and> (\<forall>str. upEndTime dto = Some str \<and> Parse str = None
                \<longrightarrow> EndTime s' = EndTime s))
    \<and> (\<exists>new. tw_schedule_logs db' = tw_schedule_logs db @ new
          \<and> (\<forall>str. upStartTime dto = Some str \<and> Parse str = None
                \<longrightarrow> filter (\<lambda>l. FieldChanged l = ''start_time'') new
                    = (if String (the (StartTime s)) \<noteq> str
                       then [\<lparr>ScheduleId = scheduleId, WorkspaceUserId = uid,
                              Action = ''update schedule'', FieldChanged = ''start_time'',
                              OldValue = String (the (StartTime s)), NewValue = str\<rparr>]
                       else []))
          \<and> (\<forall>str. upEndTime dto = Some str \<and> Parse str = None
                \<longrightarrow> filter (\<lambda>l. FieldChanged l = ''end_time'') new
                    = (if String (the (EndTime s)) \<noteq> str
                       then [\<lparr>ScheduleId = scheduleId, WorkspaceUserId = uid,
                              Action = ''update schedule'', FieldChanged = ''end_time'',
                              OldValue = String (the (EndTime s)), NewValue = str\<rparr>]
                       else [])))"
proof -
  let ?p = "(patched Parse uid s dto)\<lparr>UpdatedAt := Some now\<rparr>"
  from found have s_id: "ID s = scheduleId" by (auto dest: First_by_id_Some)
  from times obtain t0 t1 where t0: "StartTime s = Some t0" and t1: "EndTime s = Some t1"
    by auto
  have keep: "supplied_time Parse (Some t) x \<noteq> None" for t x
    by (simp add: supplied_time_def split: option.splits)
  note U = UpdateSchedule_rows[OF healthy ids found, of Parse String now dto uid]
  have res: "res = Inr ?p"
    using result times unfolding U by (simp add: t0 t1 keep)
  have db': "db' = db\<lparr>tw_schedules :=
          map (\<lambda>r. if ID r = scheduleId then ?p else r) (tw_schedules db),
        tw_schedule_logs := tw_schedule_logs db @ expected_logs String uid s dto\<rparr>"
    using result unfolding U by simp
  have rows': "tw_schedules db' = map (\<lambda>r. if ID r = scheduleId then ?p else r) (tw_schedules db)"
    unfolding db' by simp
  have reread: "First_by_id scheduleId (tw_schedules db') = Some ?p"
    unfolding rows' by (rule First_by_id_moved[OF found]) (simp_all add: s_id)
  have kept_start: "StartTime ?p = StartTime s" if "upStartTime dto = Some str" "Parse str = None" for str
    using that by (simp add: supplied_time_def)
  have kept_end: "EndTime ?p = EndTime s" if "upEndTime dto = Some str" "Parse str = None" for str
    using that by (simp add: supplied_time_def)
  have first: "\<exists>s'. res = Inr s' \<and> First_by_id scheduleId (tw_schedules db') = Some s'
          \<and> (\<forall>str. upStartTime dto = Some str \<and> Parse str = None
                \<longrightarrow> StartTime s' = StartTime s)
          \<and> (\<forall>str. upEndTime dto = Some str \<and> Parse str = None
                \<longrightarrow> EndTime s' = EndTime s)"
    using res reread kept_start kept_end by (intro exI[of _ ?p]) blast
  have logs: "tw_schedule_logs db' = tw_schedule_logs db @ expected_logs String uid s dto"
    unfolding db' by simp
  have ls: "filter (\<lambda>l. FieldChanged l = ''start_time'') (expected_logs String uid s dto)
                    = (if String (the (StartTime s)) \<noteq> str
                       then [\<lparr>ScheduleId = scheduleId, WorkspaceUserId = uid,
                              Action = ''update schedule'', FieldChanged = ''start_time'',
                              OldValue = String (the (StartTime s)), NewValue = str\<rparr>]
                       else [])" if "upStartTime dto = Some str" for str
    unfolding start_time_rows using that by (simp add: change_def t0 s_id)
  have le: "filter (\<lambda>l. FieldChanged l = ''end_time'') (expected_logs String uid s dto)
                    = (if String (the (EndTime s)) \<noteq> str
                       then [\<lparr>ScheduleId = scheduleId, WorkspaceUserId = uid,
                              Action = ''update schedule'', FieldChanged = ''end_time'',
                              OldValue = String (the (EndTime s)), NewValue = str\<rparr>]
                       else [])" if "upEndTime dto = Some str" for str
    unfolding end_time_rows using that by (simp add: change_def t1 s_id)
  have second: "\<exists>new. tw_schedule_logs db' = tw_schedule_logs db @ new
          \<and> (\<forall>str. upStartTime dto = Some str \<and> Parse str = None
                \<longrightarrow> filter (\<lambda>l. FieldChanged l = ''start_time'') new
                    = (if String (the (StartTime s)) \<noteq> str
                       then [\<lparr>ScheduleId = scheduleId, WorkspaceUserId = uid,
                              Action = ''update schedule'', FieldChanged = ''start_time'',
                              OldValue = String (the (StartTime s)), NewValue = str\<rparr>]
                       else []))
          \<and> (\<forall>str. upEndTime dto = Some str \<and> Parse str = None
                \<longrightarrow> filter (\<lambda>l. FieldChanged l = ''end_time'') new
                    = (if String (the (EndTime s)) \<noteq> str
                       then [\<lparr>ScheduleId = scheduleId, WorkspaceUserId = uid,
                              Action = ''update schedule'', FieldChanged = ''end_time'',
                              OldValue = String (the (EndTime s)), NewValue = str\<rparr>]
                       else []))"
    using logs ls le by (intro exI[of _ "expected_logs String uid s dto"]) blast
  from first second show ?thesis by (rule conjI)
qed


theorem update_unparsable_time_witness:
  "calls_left (board [task_card 1 1 1]) = None
   \<and> distinct (map ID (tw_schedules (board [task_card 1 1 1])))
   \<and> First_by_id 1 (tw_schedules (board [task_card 1 1 1])) = Some (task_card 1 1 1)
   \<and> StartTime (task_card 1 1 1) \<noteq> None \<and> EndTime (task_card 1 1 1) \<noteq> None
   \<and> CreatedAt (task_card 1 1 1) \<noteq> None
   \<and> upStartTime (no_patch\<lparr>upStartTime := Some ''garbage''\<rparr>) = Some ''garbage''
   \<and> seconds_Parse ''garbage'' = None
   \<and> seconds_String (the (StartTime (task_card 1 1 1))) \<noteq> ''garbage''
   \<and> (\<exists>s'. fst (UpdateSchedule seconds_Parse seconds_String 500
          (Some (no_patch\<lparr>upStartTime := Some ''garbage''\<rparr>)) 1 (Some 7) (board [task_card 1 1 1]))
          = Inr s' \<and> StartTime s' = StartTime (task_card 1 1 1))
   \<and> (\<exists>new. tw_schedule_logs (snd (UpdateSchedule seconds_Parse seconds_String 500
          (Some (no_patch\<lparr>upStartTime := Some ''garbage''\<rparr>)) 1 (Some 7) (board [task_card 1 1 1])))
          = tw_schedule_logs (board [task_card 1 1 1]) @ new
        \<and> filter (\<lambda>l. FieldChanged l = ''start_time'') new
          = [\<lparr>ScheduleId = 1, WorkspaceUserId = 7, Action = ''update schedule'',
              FieldChanged = ''start_time'',
              OldValue = seconds_String (the (StartTime (task_card 1 1 1))),
              NewValue = ''garbage''\<rparr>])"
proof -
  let ?db = "board [task_card 1 1 1]"
  let ?dto = "no_patch\<lparr>upStartTime := Some ''garbage''\<rparr>"
  let ?U = "UpdateSchedule seconds_Parse seconds_String 500 (Some ?dto) 1 (Some 7) ?db"
  have h: "calls_left ?db = None" by (simp add: board_def)
  have i: "distinct (map ID (tw_schedules ?db))" by (simp add: board_def task_card_def)
  have f: "First_by_id 1 (tw_schedules ?db) = Some (task_card 1 1 1)"
    by (simp add: board_def task_card_def First_by_id_def)
  have t: "StartTime (task_card 1 1 1) \<noteq> None" "EndTime (task_card 1 1 1) \<noteq> None"
    "CreatedAt (task_card 1 1 1) \<noteq> None" by (simp_all add: task_card_def)
  have u: "upStartTime ?dto = Some ''garbage''" by simp
  have g: "seconds_Parse ''garbage'' = None" by (simp add: seconds_Parse_def)
  have d: "seconds_String (the (StartTime (task_card 1 1 1))) \<noteq> ''garbage''"
    by (simp add: seconds_String_def task_card_def digits.simps)
  have pair: "?U = (fst ?U, snd ?U)" by simp
  note inst = update_unparsable_time[OF h i f t pair]
  from inst[THEN conjunct1] obtain s' where
    r: "fst ?U = Inr s'"
    and k: "\<forall>str. upStartTime ?dto = Some str \<and> seconds_Parse str = None
                \<longrightarrow> StartTime s' = StartTime (task_card 1 1 1)"
    by (elim exE conjE)
  from k u g have k': "StartTime s' = StartTime (task_card 1 1 1)" by blast
  from inst[THEN conjunct2] obtain new where
    n: "tw_schedule_logs (snd ?U) = tw_schedule_logs ?db @ new"
    and l: "\<forall>str. upStartTime ?dto = Some str \<and> seconds_Parse str = None
                \<longrightarrow> filter (\<lambda>l. FieldChanged l = ''start_time'') new
                    = (if seconds_String (the (StartTime (task_card 1 1 1))) \<noteq> str
                       then [\<lparr>ScheduleId = 1, WorkspaceUserId = 7,
                              Action = ''update schedule'', FieldChanged = ''start_time'',
                              OldValue = seconds_String (the (StartTime (task_card 1 1 1))),
                              NewValue = str\<rparr>]
                       else [])"
    by (elim exE conjE)
  from l u g have "filter (\<lambda>l. FieldChanged l = ''start_time'') new
                    = (if seconds_String (the (StartTime (task_card 1 1 1))) \<noteq> ''garbage''
                       then [\<lparr>ScheduleId = 1, WorkspaceUserId = 7,
                              Action = ''update schedule'', FieldChanged = ''start_time'',
                              OldValue = seconds_String (the (StartTime (task_card 1 1 1))),
                              NewValue = ''garbage''\<rparr>]
                       else [])"
    by blast
  with d have l': "filter (\<lambda>l. FieldChanged l = ''start_time'') new
      = [\<lparr>ScheduleId = 1, WorkspaceUserId = 7, Action = ''update schedule'',
          FieldChanged = ''start_time'',
          OldValue = seconds_String (the (StartTime (task_card 1 1 1))), NewValue = ''garbage''\<rparr>]"
    by simp
  from r k' have A: "\<exists>s'. fst ?U = Inr s' \<and> StartTime s' = StartTime (task_card 1 1 1)" by blast
  from n l' have B: "\<exists>new. tw_schedule_logs (snd ?U) = tw_schedule_logs ?db @ new
        \<and> filter (\<lambda>l. FieldChanged l = ''start_time'') new
          = [\<lparr>ScheduleId = 1, WorkspaceUserId = 7, Action = ''update schedule'',
              FieldChanged = ''start_time'',
              OldValue = seconds_String (the (StartTime (task_card 1 1 1))),
              NewValue = ''garbage''\<rparr>]" by blast
  from h i f t u g d A B show ?thesis by blast
qed

text \<open>
  The repository has two handlers that list a column. \<open>GetSchedulesByBoardColumn\<close>
  selects by \<open>board_column_id\<close> alone: on a column holding S1 at 2, a deleted S2 and S3
  at 1, it answers with all three rows, the deleted one among them, in the table's order.
\<close>

theorem GetSchedulesByBoardColumn_lists_deleted:
  "fst (GetSchedulesByBoardColumn (Some 1)
          (board [task_card 1 1 2, (task_card 2 1 2)\<lparr>IsDeleted := True\<rparr>, task_card 3 1 1]))
     = Inr [task_card 1 1 2, (task_card 2 1 2)\<lparr>IsDeleted := True\<rparr>, task_card 3 1 1]"
  by (simp add: GetSchedulesByBoardColumn_def board_def task_card_def db_call_def)

text \<open>
  C10, as the code has it. On a store that does not fail,
  \<open>getSchedulesByBoardColumn\<close>, which takes a workspace and a column, answers with
  exactly the active schedules of the column whose \<open>workspace_id\<close> is the given
  workspace, in ascending order of position; these are all the active schedules of the
  column when every row of the column belongs to that workspace.
  \<open>GetSchedulesByBoardColumn\<close>, which takes a column only, answers with every row of the
  column, deleted or not, in the table's order.
\<close>

theorem list_by_column:
  assumes healthy: "calls_left db = None"
  shows "\<exists>xs. fst (getSchedulesByBoardColumn (Some col) ws db) = Inr xs
      \<and> sorted (map Position xs)
      \<and> mset xs = mset (filter (\<lambda>r. BoardColumnId r = col \<and> WorkspaceId r = ws \<and> \<not> IsDeleted r)
                          (tw_schedules db))
      \<and> ((\<forall>r\<in>set (tw_schedules db). BoardColumnId r = col \<longrightarrow> WorkspaceId r = ws)
           \<longrightarrow> mset xs = mset (active_in col (tw_schedules db)))
      \<and> fst (GetSchedulesByBoardColumn (Some col) db)
           = Inr (filter (\<lambda>r. BoardColumnId r = col) (tw_schedules db))"
proof -
  let ?xs = "Find_ordered (\<lambda>r. BoardColumnId r = col \<and> WorkspaceId r = ws \<and> \<not> IsDeleted r)
               (tw_schedules db)"
  have r: "fst (getSchedulesByBoardColumn (Some col) ws db) = Inr ?xs"
    using healthy by (simp add: getSchedulesByBoardColumn_def)
  have s: "sorted (map Position ?xs)" by (simp add: Find_ordered_def)
  have m: "mset ?xs = mset (filter (\<lambda>r. BoardColumnId r = col \<and> WorkspaceId r = ws \<and> \<not> IsDeleted r)
                          (tw_schedules db))"
    by (simp add: Find_ordered_def)
  have a: "mset ?xs = mset (active_in col (tw_schedules db))"
    if "\<forall>r\<in>set (tw_schedules db). BoardColumnId r = col \<longrightarrow> WorkspaceId r = ws"
  proof -
    have "filter (\<lambda>r. BoardColumnId r = col \<and> WorkspaceId r = ws \<and> \<not> IsDeleted r) (tw_schedules db)
        = active_in col (tw_schedules db)"
      unfolding active_in_def using that by (intro filter_cong[OF refl]) auto
    with m show ?thesis by simp
  qed
  have g: "fst (GetSchedulesByBoardColumn (Some col) db)
           = Inr (filter (\<lambda>r. BoardColumnId r = col) (tw_schedules db))"
    using healthy by (simp add: GetSchedulesByBoardColumn_def)
  from r s m a g show ?thesis by blast
qed

theorem list_by_column_witness:
  "calls_left (board [task_card 1 1 2, (task_card 2 1 2)\<lparr>IsDeleted := True\<rparr>, task_card 3 1 1]) = None
   \<and> fst (getSchedulesByBoardColumn (Some 1) 1
        (board [task_card 1 1 2, (task_card 2 1 2)\<lparr>IsDeleted := True\<rparr>, task_card 3 1 1]))
       = Inr [task_card 3 1 1, task_card 1 1 2]
   \<and> mset [task_card 3 1 1, task_card 1 1 2]
       = mset (active_in 1 (tw_schedules
           (board [task_card 1 1 2, (task_card 2 1 2)\<lparr>IsDeleted := True\<rparr>, task_card 3 1 1])))"
proof -
  let ?db = "board [task_card 1 1 2, (task_card 2 1 2)\<lparr>IsDeleted := True\<rparr>, task_card 3 1 1]"
  have h: "calls_left ?db = None" by (simp add: board_def)
  have all: "\<forall>r\<in>set (tw_schedules ?db). BoardColumnId r = 1 \<longrightarrow> WorkspaceId r = 1"
    by (simp add: board_def task_card_def)
  have e: "fst (getSchedulesByBoardColumn (Some 1) 1 ?db) = Inr [task_card 3 1 1, task_card 1 1 2]"
    by (simp add: getSchedulesByBoardColumn_def board_def task_card_def db_call_def Find_ordered_def)
  from list_by_column[OF h, of 1 1] obtain xs where
    x: "fst (getSchedulesByBoardColumn (Some 1) 1 ?db) = Inr xs"
    and a: "(\<forall>r\<in>set (tw_schedules ?db). BoardColumnId r = 1 \<longrightarrow> WorkspaceId r = 1)
           \<longrightarrow> mset xs = mset (active_in 1 (tw_schedules ?db))"
    by blast
  from x e have "xs = [task_card 3 1 1, task_card 1 1 2]" by simp
  with a all have "mset [task_card 3 1 1, task_card 1 1 2] = mset (active_in 1 (tw_schedules ?db))"
    by blast
  with h e show ?thesis by blast
qed

end
